theory Spec2Isabelle
  imports Main "HOL-Library.AList" "HOL-Library.Char_ord" "HOL-Library.List_Lexorder"
begin

section \<open>Byte strings, text and the Python runtime\<close>

text \<open>
  The program is Python 2. A \<open>str\<close> is a byte string (a list of 8-bit characters), a
  \<open>unicode\<close> value is a list of code points. The codec, SHA-1, Unicode's whitespace
  table, Unicode lower-casing and the JSON reader belong to the runtime; the model takes
  them as the fields of a \<open>runtime\<close> record and never looks inside them.
\<close>

type_synonym bytes = string
type_synonym ustring = "nat list"

datatype json =
    JNull
  | JBool bool
  | JNum int
  | JStr ustring
  | JList "json list"
  | JObj "(ustring \<times> json) list"

record runtime =
  sha1_hex :: "bytes \<Rightarrow> string"
  utf8_decode :: "bytes \<Rightarrow> ustring option"
  u_isspace :: "nat \<Rightarrow> bool"
  u_lower :: "ustring \<Rightarrow> ustring"
  json_load :: "bytes \<Rightarrow> json option"

text \<open>A \<open>str\<close> literal of the source, read as text.\<close>

definition u :: "string \<Rightarrow> ustring" where
  "u s = map of_char s"

datatype error =
    ValueError         \<comment> \<open>\<open>raise ValueError('Invalid mime data')\<close>\<close>
  | IndexError         \<comment> \<open>\<open>headers[-1]\<close> on an empty list\<close>
  | UnicodeDecodeError \<comment> \<open>\<open>.decode('utf-8')\<close> on bytes that are not UTF-8\<close>
  | OSError            \<comment> \<open>\<open>os.listdir\<close>, \<open>os.readlink\<close>\<close>
  | IOError            \<comment> \<open>\<open>open\<close>, \<open>read\<close>, with an \<open>errno\<close> other than \<open>ENOENT\<close>\<close>
  | IOError_ENOENT     \<comment> \<open>\<open>open\<close> of a path that does not exist\<close>
  | TypeError          \<comment> \<open>iterating \<open>None\<close>\<close>
  | AttributeError     \<comment> \<open>an attribute no class defines\<close>
  | RemoteError        \<comment> \<open>\<open>raise_for_status\<close> and transport failures of \<open>requests\<close>\<close>

definition newline :: char where
  "newline = CHR 0x0A"

section \<open>The header-block parser\<close>

text \<open>
  \<open>str.strip()\<close> removes the six ASCII whitespace bytes; \<open>\s\<close> of a pattern compiled
  without \<open>re.UNICODE\<close> matches the same six as code points.
\<close>

definition is_space_byte :: "char \<Rightarrow> bool" where
  "is_space_byte c = (c \<in> set [CHR 0x20, CHR 0x09, CHR 0x0A, CHR 0x0D, CHR 0x0B, CHR 0x0C])"

definition re_space :: "nat \<Rightarrow> bool" where
  "re_space c = (c \<in> set [32, 9, 10, 13, 11, 12])"

definition colon :: nat where
  "colon = 58"

text \<open>\<open>f.readline()\<close> on the bytes still unread: the line with its newline, and the rest.\<close>

fun readline :: "bytes \<Rightarrow> bytes \<times> bytes" where
  "readline [] = ([], [])"
| "readline (c # cs) =
     (if c = newline then ([c], cs)
      else (case readline cs of (l, r) \<Rightarrow> (c # l, r)))"

lemma readline_append: "fst (readline f) @ snd (readline f) = f"
  by (induction f) (auto split: prod.splits)

lemma readline_rest_shorter:
  "\<not> list_all is_space_byte (fst (readline f)) \<Longrightarrow> length (snd (readline f)) < length f"
proof -
  assume "\<not> list_all is_space_byte (fst (readline f))"
  then have "fst (readline f) \<noteq> []" by auto
  moreover have "length (fst (readline f)) + length (snd (readline f)) = length f"
    by (metis readline_append length_append)
  ultimately show ?thesis by (cases "fst (readline f)") auto
qed

text \<open>\<open>line.rstrip('\r\n')\<close>: every trailing carriage return and newline goes.\<close>

definition rstrip_crlf :: "bytes \<Rightarrow> bytes" where
  "rstrip_crlf l = rev (dropWhile (\<lambda>c. c = CHR 0x0D \<or> c = newline) (rev l))"

text \<open>
  \<open>_kv_re = re.compile(r'^(.*?)\s*:\s*(.*?)$')\<close>, matched with \<open>.match\<close>. At a start
  \<open>k\<close> of the first \<open>\s*\<close> the rest of the pattern is forced: the greedy \<open>\s*\<close> takes the
  whole run of whitespace, the next character has to be the colon, the second \<open>\s*\<close> takes
  the whole run again, and the second lazy group runs to the end of the text or to a
  newline that ends it; neither lazy group crosses a newline. \<open>kv_here\<close> is that match at
  one start and gives the second group; \<open>kv_scan\<close> moves the start right one character at
  a time, as the first lazy group does, and stops at a newline.
\<close>

definition kv_here :: "ustring \<Rightarrow> ustring option" where
  "kv_here l =
     (case dropWhile re_space l of
        [] \<Rightarrow> None
      | c # rest \<Rightarrow>
          if c \<noteq> colon then None
          else (let v = dropWhile re_space rest
                in if 10 \<notin> set v then Some v
                   else if last v = 10 \<and> 10 \<notin> set (butlast v) then Some (butlast v)
                   else None))"

fun kv_scan :: "ustring \<Rightarrow> ustring \<Rightarrow> (ustring \<times> ustring) option" where
  "kv_scan pre l =
     (case kv_here l of
        Some v \<Rightarrow> Some (pre, v)
      | None \<Rightarrow>
          (case l of
             [] \<Rightarrow> None
           | c # cs \<Rightarrow> if c = 10 then None else kv_scan (pre @ [c]) cs))"

definition kv_re :: "ustring \<Rightarrow> (ustring \<times> ustring) option" where
  "kv_re l = kv_scan [] l"

text \<open>\<open>line[:1].isspace()\<close> on a \<open>unicode\<close> line.\<close>

definition starts_with_space :: "runtime \<Rightarrow> ustring \<Rightarrow> bool" where
  "starts_with_space P l = (case l of [] \<Rightarrow> False | c # _ \<Rightarrow> u_isspace P c)"

type_synonym headers = "(ustring \<times> ustring) list"

text \<open>
  The \<open>while 1\<close> loop of \<open>read_mime\<close>, with \<open>_readline\<close> inlined. \<open>h\<close> is what the SHA-1
  object has been fed so far, \<open>f\<close> the bytes of the file not yet read. The result is the
  header list, the bytes fed to the hash, and the unread rest.
\<close>

function read_headers ::
  "runtime \<Rightarrow> headers \<Rightarrow> bytes \<Rightarrow> bytes \<Rightarrow> error + (headers \<times> bytes \<times> bytes)" where
  "read_headers P hs h f =
     (if list_all is_space_byte (fst (readline f))
      then Inr (hs, h @ fst (readline f), snd (readline f))
      else (case utf8_decode P (rstrip_crlf (fst (readline f))) of
              None \<Rightarrow> Inl UnicodeDecodeError
            | Some line \<Rightarrow>
                if line = [] then Inr (hs, h @ fst (readline f), snd (readline f))
                else (case kv_re line of
                        Some kv \<Rightarrow>
                          read_headers P (hs @ [kv]) (h @ fst (readline f)) (snd (readline f))
                      | None \<Rightarrow>
                          if starts_with_space P line
                          then (if hs = [] then Inl IndexError
                                else read_headers P
                                       (butlast hs @
                                          [(fst (last hs), snd (last hs) @ [32] @ drop 1 line)])
                                       (h @ fst (readline f)) (snd (readline f)))
                          else Inl ValueError)))"
  by pat_completeness auto
termination
  by (relation "measure (\<lambda>(P, hs, h, f). length f)") (auto simp: readline_rest_shorter)

declare read_headers.simps [simp del]

definition read_mime :: "runtime \<Rightarrow> bytes \<Rightarrow> error + (headers \<times> bytes \<times> string)" where
  "read_mime P f =
     (case read_headers P [] [] f of
        Inl e \<Rightarrow> Inl e
      | Inr (hs, h, payload) \<Rightarrow> Inr (hs, payload, sha1_hex P (h @ payload)))"

text \<open>
  The words of the specification about folded values. A raw line is a run of bytes
  ending at its first newline. A continuation line is a raw line that is not blank, that
  decodes, that starts with whitespace and that holds no colon; \<open>cont_line\<close> pairs it with
  its text. The unfolded value is the first value with, for each continuation in turn,
  one space and the continuation less its first character appended.
\<close>

definition is_line :: "bytes \<Rightarrow> bool" where
  "is_line r = (r \<noteq> [] \<and> last r = newline \<and> newline \<notin> set (butlast r))"

definition cont_line :: "runtime \<Rightarrow> bytes \<times> ustring \<Rightarrow> bool" where
  "cont_line P rc =
     (is_line (fst rc) \<and> \<not> list_all is_space_byte (fst rc)
      \<and> utf8_decode P (rstrip_crlf (fst rc)) = Some (snd rc)
      \<and> starts_with_space P (snd rc) \<and> colon \<notin> set (snd rc))"

definition unfold_value :: "ustring \<Rightarrow> ustring list \<Rightarrow> ustring" where
  "unfold_value v cs = foldl (\<lambda>a c. a @ [32] @ drop 1 c) v cs"

text \<open>
  The words of the specification about malformed header blocks. \<open>last_line r rest\<close>: \<open>r\<close>
  is a raw line before the bytes \<open>rest\<close>, ending at its newline or at the end of the file.
  A header line is a raw line that is not blank (and whose text is not empty). A
  malformed line is not blank, decodes, and is neither a \<open>key: value\<close> line nor led by
  whitespace. A well-formed line decodes and is one of the two; a well-formed block is
  made of well-formed lines and does not start with a continuation.
\<close>

definition last_line :: "bytes \<Rightarrow> bytes \<Rightarrow> bool" where
  "last_line r rest =
     (r \<noteq> [] \<and> newline \<notin> set (butlast r) \<and> (last r = newline \<or> rest = []))"

definition header_line :: "runtime \<Rightarrow> bytes \<Rightarrow> bool" where
  "header_line P r =
     (is_line r \<and> \<not> list_all is_space_byte r \<and> utf8_decode P (rstrip_crlf r) \<noteq> Some [])"

definition malformed_line :: "runtime \<Rightarrow> bytes \<Rightarrow> bool" where
  "malformed_line P r =
     (\<not> list_all is_space_byte r
      \<and> (case utf8_decode P (rstrip_crlf r) of
            None \<Rightarrow> False
          | Some l \<Rightarrow> l \<noteq> [] \<and> kv_re l = None \<and> \<not> starts_with_space P l))"

definition kv_line :: "runtime \<Rightarrow> bytes \<Rightarrow> bool" where
  "kv_line P r =
     (case utf8_decode P (rstrip_crlf r) of None \<Rightarrow> False | Some l \<Rightarrow> kv_re l \<noteq> None)"

definition wellformed_line :: "runtime \<Rightarrow> bytes \<Rightarrow> bool" where
  "wellformed_line P r =
     (is_line r \<and> \<not> list_all is_space_byte r
      \<and> (case utf8_decode P (rstrip_crlf r) of
            None \<Rightarrow> False
          | Some l \<Rightarrow> l \<noteq> [] \<and> (starts_with_space P l \<or> kv_re l \<noteq> None)))"

definition wellformed_block :: "runtime \<Rightarrow> bytes list \<Rightarrow> bool" where
  "wellformed_block P rs =
     (list_all (wellformed_line P) rs \<and> (case rs of [] \<Rightarrow> True | r # _ \<Rightarrow> kv_line P r))"

section \<open>Member file names\<close>

text \<open>
  \<open>_member_re = re.compile(r'^(\d{4})_(.*?).txt$')\<close> in \<open>libmetaflask.py\<close>, matched with
  \<open>.match\<close> against a name of \<open>os.listdir\<close>. Four digits and an underscore, then the
  lazy group, then \<open>.\<close> (not escaped: any character but a newline), then \<open>txt\<close>, then
  \<open>$\<close>, which holds at the end of the string and also just before a newline that ends
  it. The lazy group and \<open>.\<close> never match a newline. The result is the pair of groups.
\<close>

definition is_digit :: "char \<Rightarrow> bool" where
  "is_digit c = (c \<in> set ''0123456789'')"

definition member_re :: "bytes \<Rightarrow> (bytes \<times> bytes) option" where
  "member_re s =
     (let d = take 4 s;
          t = drop 5 s;
          t' = (if t \<noteq> [] \<and> last t = newline then butlast t else t)
      in if length d = 4 \<and> list_all is_digit d \<and> take 1 (drop 4 s) = ''_''
            \<and> 4 \<le> length t' \<and> drop (length t' - 3) t' = ''txt''
            \<and> newline \<notin> set t'
         then Some (d, take (length t' - 4) t')
         else None)"

text \<open>
  The pattern of the specification, \<open><4-digit-number>_<id>.txt\<close>: four decimal digits,
  an underscore, an id, a literal dot, then \<open>txt\<close>. It is also what
  \<open>_member_fn_re = re.compile(r'^(\d{4})_(.*?)\.txt$')\<close> of \<open>metaflaskapi.py\<close> accepts
  on names without a newline.
\<close>

definition spec_member_pattern :: "bytes \<Rightarrow> bool" where
  "spec_member_pattern s =
     (length (take 4 s) = 4 \<and> list_all is_digit (take 4 s) \<and> take 1 (drop 4 s) = ''_''
      \<and> 4 \<le> length (drop 5 s) \<and> drop (length (drop 5 s) - 4) (drop 5 s) = ''.txt'')"

section \<open>The file system and paths\<close>

text \<open>
  The directory snapshot the registry is built from. \<open>open_read p\<close> is
  \<open>open(p, 'rb')\<close> followed by reading the whole file; \<open>canon\<close> is \<open>_normpath\<close>, that
  is \<open>os.path.normpath(os.path.realpath(x))\<close>.
\<close>

record filesystem =
  listdir :: "bytes \<Rightarrow> error + bytes list"
  open_read :: "bytes \<Rightarrow> error + bytes"
  readlink :: "bytes \<Rightarrow> error + bytes"
  canon :: "bytes \<Rightarrow> bytes"
  isdir :: "bytes \<Rightarrow> bool"
  path_exists :: "bytes \<Rightarrow> bool"

text \<open>\<open>posixpath.join\<close> of two components and \<open>posixpath.dirname\<close>.\<close>

definition path_join :: "bytes \<Rightarrow> bytes \<Rightarrow> bytes" where
  "path_join a b =
     (if take 1 b = ''/'' then b
      else if a = [] \<or> last a = CHR ''/'' then a @ b
      else a @ ''/'' @ b)"

definition dirname :: "bytes \<Rightarrow> bytes" where
  "dirname p =
     (let head = rev (dropWhile (\<lambda>c. c \<noteq> CHR ''/'') (rev p))
      in if head \<noteq> [] \<and> \<not> list_all (\<lambda>c. c = CHR ''/'') head
         then rev (dropWhile (\<lambda>c. c = CHR ''/'') (rev head))
         else head)"

definition member_path :: "bytes \<Rightarrow> bytes" where
  "member_path root = path_join root ''members''"

definition projects_path :: "bytes \<Rightarrow> bytes" where
  "projects_path root = path_join root ''projects''"

section \<open>Persons and members\<close>

record person =
  path :: bytes
  meta :: headers
  checksum :: string
  description :: ustring

record member = person +
  num :: nat
  member_id :: bytes

text \<open>
  \<open>Headers.get\<close> of werkzeug: keys compare after lower-casing, and the first entry with
  the key is the one returned.
\<close>

fun headers_get :: "runtime \<Rightarrow> headers \<Rightarrow> ustring \<Rightarrow> ustring option" where
  "headers_get P [] key = None"
| "headers_get P ((k, v) # hs) key =
     (if u_lower P k = u_lower P key then Some v else headers_get P hs key)"

definition name :: "runtime \<Rightarrow> 'a person_scheme \<Rightarrow> ustring option" where
  "name P p = headers_get P (meta p) (u ''name'')"

definition github :: "runtime \<Rightarrow> 'a person_scheme \<Rightarrow> ustring option" where
  "github P p = headers_get P (meta p) (u ''github'')"

text \<open>
  \<open>Member.to_json(compact=True)\<close>: \<open>num\<close>, \<open>id\<close> and \<open>name\<close> (\<open>is_member\<close> is always
  true and is left out).
\<close>

record member_compact =
  c_num :: nat
  c_id :: bytes
  c_name :: "ustring option"

definition Member_to_json_compact :: "runtime \<Rightarrow> member \<Rightarrow> member_compact" where
  "Member_to_json_compact P m = \<lparr>c_num = num m, c_id = member_id m, c_name = name P m\<rparr>"

text \<open>\<open>unicode.rstrip()\<close>.\<close>

definition u_rstrip :: "runtime \<Rightarrow> ustring \<Rightarrow> ustring" where
  "u_rstrip P s = rev (dropWhile (u_isspace P) (rev s))"

definition Person_init :: "runtime \<Rightarrow> filesystem \<Rightarrow> bytes \<Rightarrow> bytes \<Rightarrow> bytes \<Rightarrow> error + person" where
  "Person_init P fs root pth f =
     (case read_mime P f of
        Inl e \<Rightarrow> Inl e
      | Inr (hs, payload, cs) \<Rightarrow>
          (case utf8_decode P payload of
             None \<Rightarrow> Inl UnicodeDecodeError
           | Some d \<Rightarrow>
               Inr \<lparr>path = canon fs (path_join (member_path root) pth), meta = hs,
                    checksum = cs, description = u_rstrip P d\<rparr>))"

definition Member_init ::
  "runtime \<Rightarrow> filesystem \<Rightarrow> bytes \<Rightarrow> bytes \<Rightarrow> nat \<Rightarrow> bytes \<Rightarrow> bytes \<Rightarrow> error + member" where
  "Member_init P fs root pth n i f =
     (case Person_init P fs root pth f of
        Inl e \<Rightarrow> Inl e
      | Inr p \<Rightarrow>
          Inr \<lparr>path = path p, meta = meta p, checksum = checksum p,
               description = description p, num = n, member_id = i\<rparr>)"

text \<open>\<open>int(num)\<close> on the four digits of the first group.\<close>

definition int_of_digits :: "bytes \<Rightarrow> nat" where
  "int_of_digits ds = foldl (\<lambda>a c. 10 * a + (of_char c - 48)) 0 ds"

text \<open>
  The \<open>for\<close> loop of \<open>read_members\<close> over the names of \<open>os.listdir\<close>, then the sort by
  number. A name the pattern rejects is skipped; any error of an admitted file leaves the
  loop and the function.
\<close>

fun read_members_loop :: "runtime \<Rightarrow> filesystem \<Rightarrow> bytes \<Rightarrow> bytes list \<Rightarrow> error + member list" where
  "read_members_loop P fs root [] = Inr []"
| "read_members_loop P fs root (filename # rest) =
     (case member_re filename of
        None \<Rightarrow> read_members_loop P fs root rest
      | Some (d, i) \<Rightarrow>
          (case utf8_decode P filename of
             None \<Rightarrow> Inl UnicodeDecodeError
           | Some _ \<Rightarrow>
               (case open_read fs (path_join (member_path root) filename) of
                  Inl e \<Rightarrow> Inl e
                | Inr f \<Rightarrow>
                    (case Member_init P fs root filename (int_of_digits d) i f of
                       Inl e \<Rightarrow> Inl e
                     | Inr m \<Rightarrow>
                         (case read_members_loop P fs root rest of
                            Inl e \<Rightarrow> Inl e
                          | Inr ms \<Rightarrow> Inr (m # ms))))))"

definition read_members :: "runtime \<Rightarrow> filesystem \<Rightarrow> bytes \<Rightarrow> error + member list" where
  "read_members P fs root =
     (case listdir fs (member_path root) of
        Inl e \<Rightarrow> Inl e
      | Inr names \<Rightarrow>
          (case read_members_loop P fs root names of
             Inl e \<Rightarrow> Inl e
           | Inr ms \<Rightarrow> Inr (sort_key num ms)))"

section \<open>The registry\<close>

record project =
  internal_name :: bytes

text \<open>
  A \<open>dict\<close> is an association list with one entry a key; \<open>d[k] = v\<close> is
  \<open>AList.update\<close>, \<open>d.get(k)\<close> is \<open>map_of\<close>.
\<close>

record metaview =
  root_path :: bytes
  members_by_id :: "(bytes \<times> member) list"
  members_by_num :: "(nat \<times> member) list"
  members_by_github :: "(ustring \<times> member) list"
  members_by_checksum :: "(string \<times> member) list"
  members_by_path :: "(bytes \<times> member) list"
  projects :: "(bytes \<times> project) list"

definition read_projects :: "filesystem \<Rightarrow> bytes \<Rightarrow> error + project list" where
  "read_projects fs root =
     (case listdir fs (projects_path root) of
        Inl e \<Rightarrow> Inl e
      | Inr names \<Rightarrow>
          Inr (map (\<lambda>n. \<lparr>internal_name = n\<rparr>)
                 (filter (\<lambda>n. take 1 n \<noteq> ''.'' \<and> isdir fs (path_join (projects_path root) n))
                    names)))"

text \<open>The body of the \<open>for mem in read_members(self)\<close> loop of \<open>MetaView.__init__\<close>.\<close>

definition index_member :: "runtime \<Rightarrow> metaview \<Rightarrow> member \<Rightarrow> metaview" where
  "index_member P mv mem =
     mv\<lparr>members_by_id := AList.update (member_id mem) mem (members_by_id mv),
        members_by_num := AList.update (num mem) mem (members_by_num mv),
        members_by_github :=
          (case github P mem of
             None \<Rightarrow> members_by_github mv
           | Some g \<Rightarrow> AList.update g mem (members_by_github mv)),
        members_by_checksum := AList.update (checksum mem) mem (members_by_checksum mv),
        members_by_path := AList.update (path mem) mem (members_by_path mv)\<rparr>"

definition empty_metaview :: "bytes \<Rightarrow> metaview" where
  "empty_metaview root =
     \<lparr>root_path = root, members_by_id = [], members_by_num = [], members_by_github = [],
      members_by_checksum = [], members_by_path = [], projects = []\<rparr>"

definition MetaView_init :: "runtime \<Rightarrow> filesystem \<Rightarrow> bytes \<Rightarrow> error + metaview" where
  "MetaView_init P fs root =
     (case read_members P fs root of
        Inl e \<Rightarrow> Inl e
      | Inr ms \<Rightarrow>
          (case read_projects fs root of
             Inl e \<Rightarrow> Inl e
           | Inr ps \<Rightarrow>
               Inr ((foldl (index_member P) (empty_metaview root) ms)
                      \<lparr>projects := foldl (\<lambda>d p. AList.update (internal_name p) p d) [] ps\<rparr>)))"

text \<open>
  \<open>iter_members\<close>: \<open>sorted(self.members_by_num.items())\<close> orders the pairs by their
  number (the keys of a \<open>dict\<close> are distinct, so no two pairs tie), and the members are
  taken. \<open>iter_projects\<close>: the projects sorted by internal name, byte strings comparing
  lexicographically.
\<close>

definition iter_members :: "metaview \<Rightarrow> member list" where
  "iter_members mv = map snd (sort_key fst (members_by_num mv))"

definition iter_projects :: "metaview \<Rightarrow> project list" where
  "iter_projects mv = sort_key internal_name (map snd (projects mv))"

section \<open>The identity resolver\<close>

text \<open>
  \<open>MetaView.locate_linked_member\<close>. The first \<open>try\<close> reads the link and looks its
  canonical target up by path; an \<open>OSError\<close> (the path is no symbolic link, or cannot be
  read) is swallowed, and a target that is no member's path falls through as well. The
  second \<open>try\<close> opens the canonical path, hashes all its bytes and looks the digest up;
  an \<open>IOError\<close> is swallowed and the function returns \<open>None\<close>. Any other error leaves
  the function.
\<close>

definition locate_linked_member ::
  "runtime \<Rightarrow> filesystem \<Rightarrow> metaview \<Rightarrow> bytes \<Rightarrow> error + member option" where
  "locate_linked_member P fs mv pth =
     (let npath = canon fs pth;
          by_checksum =
            (case open_read fs npath of
               Inl e \<Rightarrow> if e = IOError \<or> e = IOError_ENOENT then Inr None else Inl e
             | Inr content \<Rightarrow> Inr (map_of (members_by_checksum mv) (sha1_hex P content)))
      in case readlink fs pth of
           Inl e \<Rightarrow> if e = OSError then by_checksum else Inl e
         | Inr target \<Rightarrow>
             (case map_of (members_by_path mv) (canon fs (path_join (dirname pth) target)) of
                Some rv \<Rightarrow> Inr (Some rv)
              | None \<Rightarrow> by_checksum))"

text \<open>
  The words of the specification about identity resolution. The link lookup misses for
  a path that is no symbolic link, or whose canonical target is no member's path. A
  member is known by its path (by its checksum) when it is the one member read with that
  path (that checksum).
\<close>

definition link_misses :: "filesystem \<Rightarrow> member list \<Rightarrow> bytes \<Rightarrow> bool" where
  "link_misses fs ms pth =
     (case readlink fs pth of
        Inl e \<Rightarrow> e = OSError
      | Inr target \<Rightarrow> canon fs (path_join (dirname pth) target) \<notin> path ` set ms)"

definition known_by_path :: "member list \<Rightarrow> member \<Rightarrow> bool" where
  "known_by_path ms m = (filter (\<lambda>m'. path m' = path m) ms = [m])"

definition known_by_checksum :: "member list \<Rightarrow> member \<Rightarrow> bool" where
  "known_by_checksum ms m = (filter (\<lambda>m'. checksum m' = checksum m) ms = [m])"

section \<open>Projects\<close>

text \<open>
  A \<open>Project\<close> holds its directory name; everything else is read from the checkout when
  a property is first used. Each property below is the value of the \<open>cached_property\<close>
  or \<open>property\<close> of the same name, or the error its first evaluation raises.
\<close>

definition Project_path :: "metaview \<Rightarrow> project \<Rightarrow> bytes" where
  "Project_path mv proj = path_join (projects_path (root_path mv)) (internal_name proj)"

text \<open>\<open>Project.meta\<close>: a missing \<open>META\<close> file gives empty headers, any other error is raised.\<close>

definition Project_meta :: "runtime \<Rightarrow> filesystem \<Rightarrow> metaview \<Rightarrow> project \<Rightarrow> error + headers" where
  "Project_meta P fs mv proj =
     (case open_read fs (path_join (Project_path mv proj) ''META'') of
        Inl e \<Rightarrow> if e = IOError_ENOENT then Inr [] else Inl e
      | Inr f \<Rightarrow> (case read_mime P f of Inl e \<Rightarrow> Inl e | Inr (hs, payload, cs) \<Rightarrow> Inr hs))"

text \<open>
  \<open>Project.extension_status\<close>: the headers of \<open>EXTENSION_STATUS\<close>, or \<open>None\<close> when the
  file cannot be opened.
\<close>

definition Project_extension_status ::
  "runtime \<Rightarrow> filesystem \<Rightarrow> metaview \<Rightarrow> project \<Rightarrow> error + headers option" where
  "Project_extension_status P fs mv proj =
     (case open_read fs (path_join (Project_path mv proj) ''EXTENSION_STATUS'') of
        Inl e \<Rightarrow> if e = IOError \<or> e = IOError_ENOENT then Inr None else Inl e
      | Inr f \<Rightarrow>
          (case read_mime P f of Inl e \<Rightarrow> Inl e | Inr (hs, payload, cs) \<Rightarrow> Inr (Some hs)))"

text \<open>
  \<open>Project.stewards\<close>: the members that the entries of the \<open>stewardship\<close> directory
  resolve to; an entry that resolves to nobody is dropped.
\<close>

fun stewards_loop ::
  "runtime \<Rightarrow> filesystem \<Rightarrow> metaview \<Rightarrow> bytes \<Rightarrow> bytes list \<Rightarrow> error + member list" where
  "stewards_loop P fs mv p [] = Inr []"
| "stewards_loop P fs mv p (filename # files) =
     (case locate_linked_member P fs mv (path_join p filename) of
        Inl e \<Rightarrow> Inl e
      | Inr mem \<Rightarrow>
          (case stewards_loop P fs mv p files of
             Inl e \<Rightarrow> Inl e
           | Inr rv \<Rightarrow> Inr (case mem of None \<Rightarrow> rv | Some m \<Rightarrow> m # rv)))"

definition Project_stewards ::
  "runtime \<Rightarrow> filesystem \<Rightarrow> metaview \<Rightarrow> project \<Rightarrow> error + member list" where
  "Project_stewards P fs mv proj =
     (case listdir fs (path_join (Project_path mv proj) ''stewardship'') of
        Inl e \<Rightarrow> if e = OSError then Inr [] else Inl e
      | Inr files \<Rightarrow>
          stewards_loop P fs mv (path_join (Project_path mv proj) ''stewardship'') files)"

text \<open>
  \<open>MetaView.open_cache_file\<close> in mode \<open>'rb'\<close>: the bytes of the cache file named by the
  SHA-1 of the id, \<open>None\<close> when there is no such file. (The \<open>os.makedirs\<close> before it only
  creates the cache folder, which nothing here reads.) \<open>Project.pypi_info\<close> is the JSON
  value of that file; a file that is not JSON raises \<open>ValueError\<close>.
\<close>

definition open_cache_file ::
  "runtime \<Rightarrow> filesystem \<Rightarrow> metaview \<Rightarrow> bytes \<Rightarrow> bytes \<Rightarrow> error + bytes option" where
  "open_cache_file P fs mv grp ident =
     (case open_read fs
             (path_join (path_join (path_join (root_path mv) ''.cache'') grp) (sha1_hex P ident)) of
        Inl e \<Rightarrow> if e = IOError_ENOENT then Inr None else Inl e
      | Inr content \<Rightarrow> Inr (Some content))"

definition Project_pypi_info ::
  "runtime \<Rightarrow> filesystem \<Rightarrow> metaview \<Rightarrow> project \<Rightarrow> error + json option" where
  "Project_pypi_info P fs mv proj =
     (case open_cache_file P fs mv ''projects'' (internal_name proj) of
        Inl e \<Rightarrow> Inl e
      | Inr None \<Rightarrow> Inr None
      | Inr (Some content) \<Rightarrow>
          (case json_load P content of None \<Rightarrow> Inl ValueError | Some j \<Rightarrow> Inr (Some j)))"

text \<open>
  Python on JSON values: truth, \<open>d.get(key, default)\<close> (only a \<open>dict\<close> has \<open>get\<close>), and
  the \<open>for classifier in ...\<close> loop of \<open>to_json\<close>, which leaves at the first classifier
  whose lower-cased text is the Python 3 classifier. \<open>None\<close> is \<open>JNull\<close>.
\<close>

fun json_truth :: "json \<Rightarrow> bool" where
  "json_truth JNull = False"
| "json_truth (JBool b) = b"
| "json_truth (JNum n) = (n \<noteq> 0)"
| "json_truth (JStr t) = (t \<noteq> [])"
| "json_truth (JList l) = (l \<noteq> [])"
| "json_truth (JObj d) = (d \<noteq> [])"

fun json_get :: "json \<Rightarrow> ustring \<Rightarrow> json \<Rightarrow> error + json" where
  "json_get (JObj d) key dflt = Inr (case map_of d key of None \<Rightarrow> dflt | Some v \<Rightarrow> v)"
| "json_get j key dflt = Inl AttributeError"

fun classifier_loop :: "runtime \<Rightarrow> json list \<Rightarrow> error + bool" where
  "classifier_loop P [] = Inr False"
| "classifier_loop P (JStr t # cs) =
     (if u_lower P t = u ''programming language :: python :: 3'' then Inr True
      else classifier_loop P cs)"
| "classifier_loop P (c # cs) = Inl AttributeError"

fun supports_python3 :: "runtime \<Rightarrow> json \<Rightarrow> error + bool" where
  "supports_python3 P (JList cs) = classifier_loop P cs"
| "supports_python3 P (JStr t) = classifier_loop P (map (\<lambda>c. JStr [c]) t)"
| "supports_python3 P (JObj d) = classifier_loop P (map (\<lambda>kv. JStr (fst kv)) d)"
| "supports_python3 P j = Inl TypeError"

text \<open>
  \<open>Project.to_json\<close>. The compact document is a record; the full document is built by
  the part of the function after the classifier loop (download statistics, releases and
  the final dictionary), which the model takes as the parameter \<open>full\<close>.
\<close>

record project_compact =
  pc_internal_name :: bytes
  pc_name :: "ustring option"
  pc_github :: "ustring option"
  pc_is_extension :: bool
  pc_latest_release :: json
  pc_pypi :: "ustring option"
  pc_stewards :: "member_compact list"

definition Project_to_json ::
  "runtime \<Rightarrow> filesystem \<Rightarrow> metaview \<Rightarrow> (project \<Rightarrow> json \<Rightarrow> json \<Rightarrow> bool \<Rightarrow> error + 'd)
   \<Rightarrow> project \<Rightarrow> bool \<Rightarrow> error + (project_compact + 'd)" where
  "Project_to_json P fs mv full proj compact =
     (case Project_pypi_info P fs mv proj of
        Inl e \<Rightarrow> Inl e
      | Inr pi \<Rightarrow>
          (let pypi_info = (case pi of
                              None \<Rightarrow> JObj []
                            | Some j \<Rightarrow> if json_truth j then j else JObj [])
           in case json_get pypi_info (u ''info'') (JObj []) of
                Inl e \<Rightarrow> Inl e
              | Inr info \<Rightarrow>
                  (case json_get info (u ''version'') JNull of
                     Inl e \<Rightarrow> Inl e
                   | Inr latest_release \<Rightarrow>
                       if compact
                       then (case Project_meta P fs mv proj of
                               Inl e \<Rightarrow> Inl e
                             | Inr m \<Rightarrow>
                                 (case Project_extension_status P fs mv proj of
                                    Inl e \<Rightarrow> Inl e
                                  | Inr es \<Rightarrow>
                                      (case Project_stewards P fs mv proj of
                                         Inl e \<Rightarrow> Inl e
                                       | Inr ss \<Rightarrow>
                                           Inr (Inl
                                             \<lparr>pc_internal_name = internal_name proj,
                                              pc_name = headers_get P m (u ''name''),
                                              pc_github = headers_get P m (u ''github''),
                                              pc_is_extension = (es \<noteq> None),
                                              pc_latest_release = latest_release,
                                              pc_pypi = headers_get P m (u ''pypi''),
                                              pc_stewards =
                                                map (Member_to_json_compact P) ss\<rparr>))))
                       else (case json_get info (u ''classifiers'') JNull of
                               Inl e \<Rightarrow> Inl e
                             | Inr classifiers \<Rightarrow>
                                 (case supports_python3 P classifiers of
                                    Inl e \<Rightarrow> Inl e
                                  | Inr sp3 \<Rightarrow>
                                      map_sum id Inr
                                        (full proj pypi_info latest_release sp3))))))"

text \<open>
  The names an attribute lookup on an entity finds: those its class and its base classes
  define, those \<open>__init__\<close> sets on the instance, and those of \<open>object\<close>. No class defines
  \<open>__getattr__\<close>, so any other name raises \<open>AttributeError\<close>.
\<close>

definition object_attributes :: "string list" where
  "object_attributes =
     [''__class__'', ''__delattr__'', ''__dict__'', ''__doc__'', ''__format__'',
      ''__getattribute__'', ''__hash__'', ''__init__'', ''__module__'', ''__new__'',
      ''__reduce__'', ''__reduce_ex__'', ''__repr__'', ''__setattr__'', ''__sizeof__'',
      ''__str__'', ''__subclasshook__'', ''__weakref__'']"

definition MetaViewContainer_attributes :: "string list" where
  "MetaViewContainer_attributes = [''_metaview'', ''metaview''] @ object_attributes"

definition Person_attributes :: "string list" where
  "Person_attributes =
     [''path'', ''meta'', ''checksum'', ''description'', ''name'', ''github'', ''twitter'',
      ''email'', ''to_json''] @ MetaViewContainer_attributes"

definition Member_attributes :: "string list" where
  "Member_attributes = [''num'', ''id'', ''sponsor''] @ Person_attributes"

definition ExtensionStatus_attributes :: "string list" where
  "ExtensionStatus_attributes =
     [''meta'', ''is_approved'', ''to_json''] @ MetaViewContainer_attributes"

definition Project_attributes :: "string list" where
  "Project_attributes =
     [''internal_name'', ''path'', ''meta'', ''name'', ''website'', ''github'', ''bugtracker'',
      ''documentation'', ''pypi'', ''pypi_url'', ''license'', ''status'', ''readme'',
      ''extension_status'', ''is_extension'', ''project_lead'', ''stewards'', ''pypi_info'',
      ''sync'', ''to_json''] @ MetaViewContainer_attributes"

definition MetaView_attributes :: "string list" where
  "MetaView_attributes =
     [''path'', ''members_by_id'', ''members_by_num'', ''members_by_github'',
      ''members_by_checksum'', ''members_by_path'', ''projects'', ''cache_path'',
      ''open_cache_file'', ''to_json'', ''iter_members'', ''iter_projects'',
      ''iter_extensions'', ''locate_linked_member'', ''member_path'', ''projects_path'']
     @ object_attributes"

text \<open>
  The truth value of \<open>x.name\<close> for a project \<open>x\<close>: \<open>truth\<close> gives it for a name that is
  found.
\<close>

definition Project_getattr ::
  "(project \<Rightarrow> string \<Rightarrow> error + bool) \<Rightarrow> project \<Rightarrow> string \<Rightarrow> error + bool" where
  "Project_getattr truth proj attr =
     (if attr \<in> set Project_attributes then truth proj attr else Inl AttributeError)"

text \<open>
  \<open>list_needs_stewards_api\<close>: the registry is built, then the comprehension runs over
  \<open>iter_projects\<close>, testing \<open>not x.has_stewards\<close> before it serialises \<open>x\<close>.
\<close>

fun needs_stewards_loop ::
  "runtime \<Rightarrow> filesystem \<Rightarrow> metaview \<Rightarrow> (project \<Rightarrow> string \<Rightarrow> error + bool)
   \<Rightarrow> (project \<Rightarrow> json \<Rightarrow> json \<Rightarrow> bool \<Rightarrow> error + 'd) \<Rightarrow> project list
   \<Rightarrow> error + (project_compact + 'd) list" where
  "needs_stewards_loop P fs mv truth full [] = Inr []"
| "needs_stewards_loop P fs mv truth full (x # xs) =
     (case Project_getattr truth x ''has_stewards'' of
        Inl e \<Rightarrow> Inl e
      | Inr b \<Rightarrow>
          if \<not> b
          then (case Project_to_json P fs mv full x True of
                  Inl e \<Rightarrow> Inl e
                | Inr j \<Rightarrow>
                    (case needs_stewards_loop P fs mv truth full xs of
                       Inl e \<Rightarrow> Inl e
                     | Inr js \<Rightarrow> Inr (j # js)))
          else needs_stewards_loop P fs mv truth full xs)"

definition list_needs_stewards_api ::
  "runtime \<Rightarrow> filesystem \<Rightarrow> bytes \<Rightarrow> (project \<Rightarrow> string \<Rightarrow> error + bool)
   \<Rightarrow> (project \<Rightarrow> json \<Rightarrow> json \<Rightarrow> bool \<Rightarrow> error + 'd)
   \<Rightarrow> error + (project_compact + 'd) list" where
  "list_needs_stewards_api P fs root truth full =
     (case MetaView_init P fs root of
        Inl e \<Rightarrow> Inl e
      | Inr mv \<Rightarrow> needs_stewards_loop P fs mv truth full (iter_projects mv))"

section \<open>The roster reconciler\<close>

text \<open>
  \<open>get_intended_members\<close> of \<open>metaflaskapi.py\<close>: the pairs \<open>(member.num, member.github)\<close>
  of every member of \<open>iter_members\<close>, sorted, and their second components. A member
  without a \<open>github\<close> header contributes \<open>None\<close>.
\<close>

type_synonym identity = "ustring option"

definition get_intended_members :: "runtime \<Rightarrow> metaview \<Rightarrow> identity list" where
  "get_intended_members P mv =
     map snd (sort_key fst (map (\<lambda>m. (num m, github P m)) (iter_members mv)))"

text \<open>
  The remote roster: the four functions of \<open>metaflaskapi.py\<close> that call the GitHub API,
  each taking and returning the state \<open>'r\<close> of the remote side. A failed call
  (\<open>raise_for_status\<close>, a transport error) is an error value.
\<close>

record 'r roster =
  get_current_members :: "'r \<Rightarrow> (error + ustring list) \<times> 'r"
  member_is_pending :: "identity \<Rightarrow> 'r \<Rightarrow> (error + bool) \<times> 'r"
  add_member :: "identity \<Rightarrow> 'r \<Rightarrow> error option \<times> 'r"
  remove_member :: "identity \<Rightarrow> 'r \<Rightarrow> error option \<times> 'r"

datatype op = added | pending | retained | deleted

text \<open>
  The first loop of \<open>sync_members\<close>, over the members of the \<open>set\<close> of intended
  identities in the order \<open>ms\<close> in which the set hands them out. The result is the actions
  yielded, then either the error that ended the generator or \<open>new_members\<close>, then the
  remote state.
\<close>

fun sync_intended ::
  "'r roster \<Rightarrow> identity set \<Rightarrow> identity list \<Rightarrow> identity set \<Rightarrow> 'r
   \<Rightarrow> (op \<times> identity) list \<times> (error + identity set) \<times> 'r" where
  "sync_intended R cur [] new r = ([], Inr new, r)"
| "sync_intended R cur (m # ms) new r =
     (if m \<notin> cur
      then (case member_is_pending R m r of
              (Inl e, r1) \<Rightarrow> ([], Inl e, r1)
            | (Inr p, r1) \<Rightarrow>
                if p
                then (case sync_intended R cur ms (insert m new) r1 of
                        (acts, res, r') \<Rightarrow> ((pending, m) # acts, res, r'))
                else (case add_member R m r1 of
                        (Some e, r2) \<Rightarrow> ([], Inl e, r2)
                      | (None, r2) \<Rightarrow>
                          (case sync_intended R cur ms (insert m new) r2 of
                             (acts, res, r') \<Rightarrow> ((added, m) # acts, res, r'))))
      else (case sync_intended R cur ms (insert m new) r of
              (acts, res, r') \<Rightarrow> ((retained, m) # acts, res, r')))"

text \<open>The second loop, over \<open>current_members - new_members\<close> in the order \<open>ms\<close>.\<close>

fun sync_deleted ::
  "'r roster \<Rightarrow> identity list \<Rightarrow> 'r \<Rightarrow> (op \<times> identity) list \<times> error option \<times> 'r" where
  "sync_deleted R [] r = ([], None, r)"
| "sync_deleted R (m # ms) r =
     (case remove_member R m r of
        (Some e, r1) \<Rightarrow> ([], Some e, r1)
      | (None, r1) \<Rightarrow>
          (case sync_deleted R ms r1 of
             (acts, res, r') \<Rightarrow> ((deleted, m) # acts, res, r')))"

text \<open>
  \<open>sync_members\<close>. Both collections are turned into a \<open>set\<close> before anything else; a
  \<open>for\<close> loop over a set visits its members once each in an order of the set's own, which
  is the parameter \<open>enum\<close>. The result is the list of actions the generator yields, the
  error that ended it (if one did), and the remote state.
\<close>

definition sync_members ::
  "'r roster \<Rightarrow> (identity set \<Rightarrow> identity list) \<Rightarrow> runtime \<Rightarrow> metaview \<Rightarrow> 'r
   \<Rightarrow> (op \<times> identity) list \<times> error option \<times> 'r" where
  "sync_members R enum P mv r =
     (case get_current_members R r of
        (Inl e, r1) \<Rightarrow> ([], Some e, r1)
      | (Inr logins, r1) \<Rightarrow>
          (let current_members = Some ` set logins;
               intended_members = set (get_intended_members P mv)
           in case sync_intended R current_members (enum intended_members) {} r1 of
                (acts, Inl e, r2) \<Rightarrow> (acts, Some e, r2)
              | (acts, Inr new_members, r2) \<Rightarrow>
                  (case sync_deleted R (enum (current_members - new_members)) r2 of
                     (acts', res, r3) \<Rightarrow> (acts @ acts', res, r3))))"

section \<open>The sponsorship tree\<close>

text \<open>
  \<open>Member.sponsor\<close>: the \<open>sponsor\<close> header, looked up among the GitHub handles unless
  it is absent, empty or \<open><self>\<close>.
\<close>

definition sponsor :: "runtime \<Rightarrow> metaview \<Rightarrow> member \<Rightarrow> member option" where
  "sponsor P mv m =
     (case headers_get P (meta m) (u ''sponsor'') of
        None \<Rightarrow> None
      | Some s \<Rightarrow> if s = [] \<or> s = u ''<self>'' then None else map_of (members_by_github mv) s)"

text \<open>
  \<open>get_member_tree_api\<close>. \<open>links\<close> is the \<open>dict\<close> from a sponsor (or \<open>None\<close>) to the members
  it sponsors, filled by \<open>links.setdefault(member.sponsor, []).append(member)\<close> over
  \<open>iter_members\<close>; a member is a key by identity, and two members of one registry that are
  equal as records come from the same file. \<open>children\<close> is \<open>links.get(sponsor) or ()\<close>.
\<close>

definition setdefault_append ::
  "(member option \<times> member list) list \<Rightarrow> member option \<Rightarrow> member
   \<Rightarrow> (member option \<times> member list) list" where
  "setdefault_append d k m =
     AList.update k ((case map_of d k of None \<Rightarrow> [] | Some l \<Rightarrow> l) @ [m]) d"

definition links :: "runtime \<Rightarrow> metaview \<Rightarrow> (member option \<times> member list) list" where
  "links P mv = foldl (\<lambda>d m. setdefault_append d (sponsor P mv m) m) [] (iter_members mv)"

definition children :: "runtime \<Rightarrow> metaview \<Rightarrow> member option \<Rightarrow> member list" where
  "children P mv s = (case map_of (links P mv) s of None \<Rightarrow> [] | Some l \<Rightarrow> l)"

datatype tree = Tree (tree_sponsor: "member_compact option") (sponsored: "tree list")

text \<open>
  \<open>_make_tree\<close>. The recursion of the source has no bound of its own, so the model counts
  the depth still allowed: with none left the result is \<open>None\<close>, the call that does not
  return. \<open>those\<close> gives the list of subtrees when every recursive call returned one.
\<close>

fun make_tree :: "nat \<Rightarrow> runtime \<Rightarrow> metaview \<Rightarrow> member option \<Rightarrow> tree option" where
  "make_tree 0 P mv s = None"
| "make_tree (Suc n) P mv s =
     (case those (map (\<lambda>x. make_tree n P mv (Some x)) (children P mv s)) of
        None \<Rightarrow> None
      | Some ts \<Rightarrow> Some (Tree (map_option (Member_to_json_compact P) s) ts))"

text \<open>
  No label occurs twice on a path from the root: \<open>anc\<close> are the labels above the node.
\<close>

fun no_repeat :: "member_compact option list \<Rightarrow> tree \<Rightarrow> bool" where
  "no_repeat anc (Tree l ts) = (l \<notin> set anc \<and> list_all (no_repeat (l # anc)) ts)"

text \<open>
  A checkout with three members whose sponsors form a cycle, none of them rooted:
  a sponsors b, b sponsors c, c sponsors a.
\<close>

definition cycle_file :: "string \<Rightarrow> string \<Rightarrow> bytes" where
  "cycle_file handle spons = ''github: '' @ handle @ [newline] @ ''sponsor: '' @ spons @ [newline]"

definition cycle_fs :: filesystem where
  "cycle_fs =
     \<lparr>listdir = (\<lambda>p. if p = ''repo/members''
                       then Inr [''0001_a.txt'', ''0002_b.txt'', ''0003_c.txt'']
                     else if p = ''repo/projects'' then Inr [] else Inl OSError),
      open_read = (\<lambda>p. if p = ''repo/members/0001_a.txt'' then Inr (cycle_file ''a'' ''c'')
                       else if p = ''repo/members/0002_b.txt'' then Inr (cycle_file ''b'' ''a'')
                       else if p = ''repo/members/0003_c.txt'' then Inr (cycle_file ''c'' ''b'')
                       else Inl IOError_ENOENT),
      readlink = (\<lambda>p. Inl OSError),
      canon = (\<lambda>p. p),
      isdir = (\<lambda>p. False),
      path_exists = (\<lambda>p. False)\<rparr>"

section \<open>Concrete instances\<close>

text \<open>
  A runtime for ASCII data, on which the codec and the case mapping are plain: bytes
  below 128 decode to their own code points, anything else is a decoding error.
\<close>

definition ascii_lower :: "nat \<Rightarrow> nat" where
  "ascii_lower c = (if 65 \<le> c \<and> c \<le> 90 then c + 32 else c)"

definition ascii_runtime :: runtime where
  "ascii_runtime =
     \<lparr>sha1_hex = (\<lambda>b. b),
      utf8_decode = (\<lambda>b. if list_all (\<lambda>c. (of_char c :: nat) < 128) b
                          then Some (map of_char b) else None),
      u_isspace = re_space,
      u_lower = map ascii_lower,
      json_load = (\<lambda>b. None)\<rparr>"

text \<open>
  The registry of the specification's example: alice, bob and carol are members 1, 2
  and 3, each with a \<open>github\<close> header.
\<close>

definition example_member :: "nat \<Rightarrow> string \<Rightarrow> member" where
  "example_member n handle =
     \<lparr>path = ''repo/members/'' @ handle, meta = [(u ''github'', u handle)],
      checksum = handle, description = [], num = n, member_id = handle\<rparr>"

definition example_metaview :: metaview where
  "example_metaview =
     foldl (index_member ascii_runtime) (empty_metaview ''repo'')
       [example_member 1 ''alice'', example_member 2 ''bob'', example_member 3 ''carol'']"

text \<open>
  A roster whose team is bob and dave, with no invitation pending and no call failing.
  Its state is the log of the mutating calls made.
\<close>

definition example_roster :: "(op \<times> identity) list roster" where
  "example_roster =
     \<lparr>get_current_members = (\<lambda>r. (Inr [u ''bob'', u ''dave''], r)),
      member_is_pending = (\<lambda>m r. (Inr False, r)),
      add_member = (\<lambda>m r. (None, r @ [(added, m)])),
      remove_member = (\<lambda>m r. (None, r @ [(deleted, m)]))\<rparr>"

text \<open>
  A set that hands out its members in the order carol, bob, alice, dave. (It is the
  order of the slots that CPython 2.7's string hash assigns to these four names in a
  table of eight.)
\<close>

definition example_enum :: "identity set \<Rightarrow> identity list" where
  "example_enum S =
     filter (\<lambda>x. x \<in> S) [Some (u ''carol''), Some (u ''bob''), Some (u ''alice''), Some (u ''dave'')]"

text \<open>The registry that \<open>MetaView.__init__\<close> builds from the checkout with the cycle.\<close>

definition cycle_member :: "nat \<Rightarrow> string \<Rightarrow> string \<Rightarrow> string \<Rightarrow> member" where
  "cycle_member n filename handle spons =
     \<lparr>path = ''repo/members/'' @ filename,
      meta = [(u ''github'', u handle), (u ''sponsor'', u spons)],
      checksum = cycle_file handle spons, description = [], num = n, member_id = handle\<rparr>"

definition cycle_metaview :: metaview where
  "cycle_metaview =
     foldl (index_member ascii_runtime) (empty_metaview ''repo'')
       [cycle_member 1 ''0001_a.txt'' ''a'' ''c'', cycle_member 2 ''0002_b.txt'' ''b'' ''a'',
        cycle_member 3 ''0003_c.txt'' ''c'' ''b'']"

text \<open>A checkout with one member file, which has a name but no \<open>github\<close> header.\<close>

definition nohandle_fs :: filesystem where
  "nohandle_fs =
     \<lparr>listdir = (\<lambda>p. if p = ''repo/members'' then Inr [''0001_anna.txt'']
                     else if p = ''repo/projects'' then Inr [] else Inl OSError),
      open_read = (\<lambda>p. if p = ''repo/members/0001_anna.txt''
                       then Inr (''name: Anna'' @ [newline]) else Inl IOError_ENOENT),
      readlink = (\<lambda>p. Inl OSError),
      canon = (\<lambda>p. p),
      isdir = (\<lambda>p. False),
      path_exists = (\<lambda>p. p = ''repo/members/0001_anna.txt'')\<rparr>"

text \<open>
  A checkout with two member files: the first is sound, the second has a header line
  that is neither a \<open>key: value\<close> line nor a continuation.
\<close>

definition malformed_fs :: filesystem where
  "malformed_fs =
     \<lparr>listdir = (\<lambda>p. if p = ''repo/members'' then Inr [''0001_ann.txt'', ''0002_bob.txt'']
                     else if p = ''repo/projects'' then Inr [] else Inl OSError),
      open_read = (\<lambda>p. if p = ''repo/members/0001_ann.txt''
                       then Inr (''name: Ann'' @ [newline])
                       else if p = ''repo/members/0002_bob.txt''
                       then Inr (''name: Bob'' @ [newline] @ ''no separator here'' @ [newline])
                       else Inl IOError_ENOENT),
      readlink = (\<lambda>p. Inl OSError),
      canon = (\<lambda>p. p),
      isdir = (\<lambda>p. False),
      path_exists = (\<lambda>p. False)\<rparr>"

text \<open>
  A checkout with one member and a project \<open>p\<close> that names her three times: by a
  symbolic link into the members directory, by a copy of her file, and not at all (a
  file with other content).
\<close>

definition link_fs :: filesystem where
  "link_fs =
     \<lparr>listdir = (\<lambda>p. if p = ''repo/members'' then Inr [''0001_ann.txt'']
                     else if p = ''repo/projects'' then Inr [''p''] else Inl OSError),
      open_read = (\<lambda>p. if p = ''repo/members/0001_ann.txt'' \<or> p = ''repo/projects/p/copy''
                       then Inr (''name: Ann'' @ [newline])
                       else if p = ''repo/projects/p/other''
                       then Inr (''name: Eve'' @ [newline])
                       else Inl IOError_ENOENT),
      readlink = (\<lambda>p. if p = ''repo/projects/p/PROJECT_LEAD''
                      then Inr ''../../members/0001_ann.txt'' else Inl OSError),
      canon = (\<lambda>p. if p = ''repo/projects/p/../../members/0001_ann.txt''
                       \<or> p = ''repo/projects/p/PROJECT_LEAD''
                    then ''repo/members/0001_ann.txt'' else p),
      isdir = (\<lambda>p. p = ''repo/projects/p''),
      path_exists = (\<lambda>p. True)\<rparr>"

definition ann :: member where
  "ann =
     \<lparr>path = ''repo/members/0001_ann.txt'', meta = [(u ''name'', u ''Ann'')],
      checksum = ''name: Ann'' @ [newline], description = [], num = 1, member_id = ''ann''\<rparr>"

definition link_metaview :: metaview where
  "link_metaview =
     (index_member ascii_runtime (empty_metaview ''repo'') ann)
       \<lparr>projects := [(''p'', \<lparr>internal_name = ''p''\<rparr>)]\<rparr>"

section \<open>Theorems\<close>

text \<open>The definitions that evaluating a concrete checkout unfolds.\<close>

lemmas eval_defs =
  MetaView_init_def read_members_def read_projects_def member_path_def projects_path_def
  path_join_def member_re_def is_digit_def newline_def ascii_runtime_def Member_init_def
  Person_init_def read_mime_def read_headers.simps is_space_byte_def rstrip_crlf_def
  kv_re_def kv_here_def re_space_def colon_def starts_with_space_def iter_members_def
  index_member_def empty_metaview_def github_def u_def ascii_lower_def int_of_digits_def
  u_rstrip_def

subsection \<open>The header-block parser\<close>

lemma readline_line: "is_line r \<Longrightarrow> readline (r @ rest) = (r, rest)"
proof (induction r)
  case Nil
  then show ?case by (simp add: is_line_def)
next
  case (Cons c cs)
  show ?case
  proof (cases "cs = []")
    case True
    with Cons.prems show ?thesis by (simp add: is_line_def)
  next
    case False
    with Cons.prems have "is_line cs" "c \<noteq> newline" by (auto simp: is_line_def)
    with Cons.IH show ?thesis by simp
  qed
qed

lemma kv_here_no_colon: "colon \<notin> set l \<Longrightarrow> kv_here l = None"
proof -
  assume nc: "colon \<notin> set l"
  show ?thesis
  proof (cases "dropWhile re_space l")
    case Nil
    show ?thesis unfolding kv_here_def by (simp only: Nil list.case)
  next
    case (Cons c rest)
    then have "c \<in> set l" by (metis list.set_intros(1) set_dropWhileD)
    with nc have "c \<noteq> colon" by auto
    with Cons show ?thesis by (simp add: kv_here_def)
  qed
qed

lemma kv_scan_no_colon: "colon \<notin> set l \<Longrightarrow> kv_scan pre l = None"
proof (induction l arbitrary: pre)
  case Nil
  show ?case by (subst kv_scan.simps) (simp add: kv_here_no_colon)
next
  case (Cons c cs)
  then have "kv_here (c # cs) = None" "kv_scan (pre @ [c]) cs = None"
    by (simp_all add: kv_here_no_colon)
  then show ?case by (subst kv_scan.simps) simp
qed

lemma kv_re_no_colon: "colon \<notin> set l \<Longrightarrow> kv_re l = None"
  unfolding kv_re_def by (rule kv_scan_no_colon)

lemma read_headers_cont_step:
  assumes "cont_line P (r, c)"
  shows "read_headers P (hs @ [(k, a)]) h (r @ rest)
           = read_headers P (hs @ [(k, a @ [32] @ drop 1 c)]) (h @ r) rest"
proof -
  from assms have l: "readline (r @ rest) = (r, rest)" and nb: "\<not> list_all is_space_byte r"
    and d: "utf8_decode P (rstrip_crlf r) = Some c" and sp: "starts_with_space P c"
    and nc: "kv_re c = None"
    by (auto simp: cont_line_def readline_line kv_re_no_colon)
  from sp have ne: "c \<noteq> []" by (auto simp: starts_with_space_def)
  show ?thesis
    by (subst read_headers.simps) (simp add: l nb d sp nc ne)
qed

lemma read_headers_conts:
  "list_all (cont_line P) conts \<Longrightarrow>
   read_headers P (hs @ [(k, a)]) h (concat (map fst conts) @ rest)
     = read_headers P (hs @ [(k, unfold_value a (map snd conts))])
         (h @ concat (map fst conts)) rest"
proof (induction conts arbitrary: a h)
  case Nil
  then show ?case by (simp add: unfold_value_def)
next
  case (Cons rc conts)
  obtain r c where rc: "rc = (r, c)" by (cases rc)
  with Cons.prems have c: "cont_line P (r, c)" and cs: "list_all (cont_line P) conts" by auto
  have "read_headers P (hs @ [(k, a)]) h (concat (map fst (rc # conts)) @ rest)
      = read_headers P (hs @ [(k, a)]) h (r @ (concat (map fst conts) @ rest))"
    by (simp add: rc)
  also have "\<dots> = read_headers P (hs @ [(k, a @ [32] @ drop 1 c)]) (h @ r) (concat (map fst conts) @ rest)"
    by (rule read_headers_cont_step[OF c])
  also have "\<dots> = read_headers P (hs @ [(k, unfold_value (a @ [32] @ drop 1 c) (map snd conts))])
         ((h @ r) @ concat (map fst conts)) rest"
    by (rule Cons.IH[OF cs])
  finally show ?case by (simp add: rc unfold_value_def)
qed

lemma read_headers_kv_step:
  assumes "is_line r" "\<not> list_all is_space_byte r" "utf8_decode P (rstrip_crlf r) = Some l"
    "kv_re l = Some (k, v)"
  shows "read_headers P hs h (r @ rest) = read_headers P (hs @ [(k, v)]) (h @ r) rest"
proof -
  have "l \<noteq> []" using assms(4) by (auto simp: kv_re_def kv_here_def)
  then show ?thesis
    by (subst read_headers.simps) (simp add: readline_line assms)
qed

lemma read_headers_eof: "read_headers P hs h [] = Inr (hs, h, [])"
  by (subst read_headers.simps) simp

lemmas parse_defs =
  read_mime_def read_headers.simps newline_def ascii_runtime_def is_space_byte_def
  rstrip_crlf_def kv_re_def kv_here_def re_space_def colon_def starts_with_space_def u_def

text \<open>
  C5, as the code has it. After a \<open>key: value\<close> line, continuation lines that hold no
  colon are folded into the value: each adds one space and its text less the first
  character. The loop goes on from there with the folded entry, and a document that ends
  after the continuation lines parses to that one entry.
\<close>

theorem read_mime_unfolds:
  assumes "is_line r" "\<not> list_all is_space_byte r" "utf8_decode P (rstrip_crlf r) = Some l"
    "kv_re l = Some (k, v)" and "list_all (cont_line P) conts"
  shows "read_headers P hs h (r @ concat (map fst conts) @ rest)
           = read_headers P (hs @ [(k, unfold_value v (map snd conts))])
               (h @ r @ concat (map fst conts)) rest
       \<and> read_mime P (r @ concat (map fst conts))
           = Inr ([(k, unfold_value v (map snd conts))], [],
                  sha1_hex P (r @ concat (map fst conts)))"
proof -
  have g: "\<And>hs h rest. read_headers P hs h (r @ concat (map fst conts) @ rest)
           = read_headers P (hs @ [(k, unfold_value v (map snd conts))])
               (h @ r @ concat (map fst conts)) rest"
    using read_headers_kv_step[OF assms(1-4)] read_headers_conts[OF assms(5)] by simp
  from g[of "[]" "[]" "[]"] show ?thesis
    by (simp add: g read_mime_def read_headers_eof)
qed

theorem read_mime_unfolds_witness:
  "read_mime ascii_runtime (''name: Armin'' @ [newline] @ '' Ronacher'' @ [newline])
     = Inr ([(u ''name'', u ''Armin Ronacher'')], [],
            ''name: Armin'' @ [newline] @ '' Ronacher'' @ [newline])"
  using read_mime_unfolds[of "''name: Armin'' @ [newline]" ascii_runtime "u ''name: Armin''"
      "u ''name''" "u ''Armin''" "[('' Ronacher'' @ [newline], u '' Ronacher'')]" "[]" "[]" "[]"]
  by (simp add: is_line_def cont_line_def unfold_value_def parse_defs)

text \<open>
  C5, as stated, fails. \<open>_kv_re\<close> is tried before the whitespace test and matches every
  line that holds a colon, so the continuation line \<open> http://example.com\<close> after
  \<open>website: see\<close> is not folded: it becomes a header of its own with the key
  \<open> http\<close>.
\<close>

theorem read_mime_colon_continuation_counterexample:
  "starts_with_space ascii_runtime (u '' http://example.com'')
   \<and> map_sum id fst
         (read_mime ascii_runtime
            (''website: see'' @ [newline] @ '' http://example.com'' @ [newline]))
       = Inr [(u ''website'', u ''see''), (u '' http'', u ''//example.com'')]
   \<and> map_sum id fst
         (read_mime ascii_runtime
            (''website: see'' @ [newline] @ '' http://example.com'' @ [newline]))
       \<noteq> Inr [(u ''website'', unfold_value (u ''see'') [u '' http://example.com''])]"
  by (simp add: unfold_value_def parse_defs)

subsection \<open>Registry construction\<close>

lemma readline_last_line: "last_line r rest \<Longrightarrow> readline (r @ rest) = (r, rest)"
proof (induction r)
  case Nil
  then show ?case by (simp add: last_line_def)
next
  case (Cons c cs)
  show ?case
  proof (cases "cs = []")
    case True
    with Cons.prems show ?thesis by (auto simp: last_line_def)
  next
    case False
    with Cons.prems have "last_line cs rest" "c \<noteq> newline" by (auto simp: last_line_def)
    with Cons.IH show ?thesis by simp
  qed
qed

lemma read_headers_malformed_line:
  assumes "last_line bad rest" "malformed_line P bad"
  shows "read_headers P hs h (bad @ rest) = Inl ValueError"
proof -
  from assms(2) obtain l where l: "utf8_decode P (rstrip_crlf bad) = Some l" "l \<noteq> []"
    "kv_re l = None" "\<not> starts_with_space P l" and nb: "\<not> list_all is_space_byte bad"
    by (auto simp: malformed_line_def split: option.splits)
  show ?thesis
    by (subst read_headers.simps) (simp add: readline_last_line[OF assms(1)] l nb)
qed

lemma read_headers_aborts:
  "list_all (header_line P) pre \<Longrightarrow> last_line bad rest \<Longrightarrow> malformed_line P bad \<Longrightarrow>
     isl (read_headers P hs h (concat pre @ bad @ rest))"
proof (induction pre arbitrary: hs h)
  case Nil
  then show ?case by (simp add: read_headers_malformed_line)
next
  case (Cons r pre)
  from Cons.prems(1) have hr: "header_line P r" and pre: "list_all (header_line P) pre"
    by simp_all
  from hr have r: "is_line r" "\<not> list_all is_space_byte r"
    "utf8_decode P (rstrip_crlf r) \<noteq> Some []"
    by (auto simp: header_line_def)
  have ih: "\<And>hs h. isl (read_headers P hs h (concat pre @ bad @ rest))"
    using Cons.IH[OF pre Cons.prems(2,3)] .
  have rl: "readline (r @ concat pre @ bad @ rest) = (r, concat pre @ bad @ rest)"
    by (rule readline_line[OF r(1)])
  have "isl (read_headers P hs h (r @ concat pre @ bad @ rest))"
    by (subst read_headers.simps) (use r(2,3) in \<open>auto simp: rl ih split: option.splits\<close>)
  then show ?case by simp
qed

lemma read_headers_first_failure:
  "list_all (wellformed_line P) pre \<Longrightarrow> hs \<noteq> [] \<or> (case pre of [] \<Rightarrow> True | r # _ \<Rightarrow> kv_line P r) \<Longrightarrow>
   last_line bad rest \<Longrightarrow> malformed_line P bad \<Longrightarrow>
     read_headers P hs h (concat pre @ bad @ rest) = Inl ValueError"
proof (induction pre arbitrary: hs h)
  case Nil
  then show ?case by (simp add: read_headers_malformed_line)
next
  case (Cons r pre)
  from Cons.prems(1) have wr: "wellformed_line P r" and pre: "list_all (wellformed_line P) pre"
    by simp_all
  from wr obtain l where r: "is_line r" "\<not> list_all is_space_byte r"
    "utf8_decode P (rstrip_crlf r) = Some l" "l \<noteq> []" "starts_with_space P l \<or> kv_re l \<noteq> None"
    by (auto simp: wellformed_line_def split: option.splits)
  have ih: "\<And>hs h. hs \<noteq> [] \<Longrightarrow> read_headers P hs h (concat pre @ bad @ rest) = Inl ValueError"
    using Cons.IH[OF pre _ Cons.prems(3,4)] by blast
  have rl: "readline (r @ concat pre @ bad @ rest) = (r, concat pre @ bad @ rest)"
    by (rule readline_line[OF r(1)])
  have first: "hs \<noteq> [] \<or> kv_re l \<noteq> None"
    using Cons.prems(2) r(3) by (auto simp: kv_line_def)
  have "read_headers P hs h (r @ concat pre @ bad @ rest) = Inl ValueError"
    by (subst read_headers.simps) (use r(2-5) first in \<open>auto simp: rl ih split: option.splits\<close>)
  then show ?case by simp
qed

lemma read_mime_Inl: "read_headers P [] [] f = Inl e \<Longrightarrow> read_mime P f = Inl e"
  by (simp add: read_mime_def)

lemma read_mime_isl: "isl (read_headers P [] [] f) \<Longrightarrow> isl (read_mime P f)"
  by (cases "read_headers P [] [] f") (auto simp: read_mime_def)

lemma Member_init_Inl: "read_mime P f = Inl e \<Longrightarrow> Member_init P fs root pth n i f = Inl e"
  by (simp add: Member_init_def Person_init_def)

lemma loop_head_fails:
  assumes "member_re filename = Some (d, i)" "utf8_decode P filename = Some uname"
    "open_read fs (path_join (member_path root) filename) = Inr f" "read_mime P f = Inl e"
  shows "read_members_loop P fs root (filename # after) = Inl e"
  using assms by (simp add: Member_init_Inl)

lemma loop_isl_append:
  "isl (read_members_loop P fs root xs) \<Longrightarrow> isl (read_members_loop P fs root (before @ xs))"
  by (induction before) (auto split: option.splits sum.splits)

lemma loop_Inl_append:
  "\<not> isl (read_members_loop P fs root before) \<Longrightarrow> read_members_loop P fs root xs = Inl e \<Longrightarrow>
     read_members_loop P fs root (before @ xs) = Inl e"
  by (induction before) (auto split: option.splits sum.splits)

lemma MetaView_init_Inl:
  "listdir fs (member_path root) = Inr names \<Longrightarrow> read_members_loop P fs root names = Inl e \<Longrightarrow>
     MetaView_init P fs root = Inl e"
  by (simp add: MetaView_init_def read_members_def)

text \<open>
  C8. A member file (a name of the members directory that \<open>_member_re\<close> admits) whose
  header section holds a malformed line makes \<open>MetaView.__init__\<close> raise: the result is
  an error, never a registry, so the file is not skipped and no partial registry is
  built. The error is the \<open>ValueError\<close> of \<open>read_mime\<close> when the malformed line is the
  first failure met, that is when the header lines before it are well formed and the
  files listed before this one load.
\<close>

theorem malformed_member_file_aborts:
  assumes listing: "listdir fs (member_path root) = Inr (before @ filename # after)"
    and admitted: "member_re filename = Some (d, i)" "utf8_decode P filename = Some uname"
    and content: "open_read fs (path_join (member_path root) filename)
                    = Inr (concat pre @ bad @ rest)"
    and header: "list_all (header_line P) pre" "last_line bad rest" "malformed_line P bad"
  shows "isl (MetaView_init P fs root)
       \<and> (wellformed_block P pre \<and> \<not> isl (read_members_loop P fs root before)
            \<longrightarrow> MetaView_init P fs root = Inl ValueError)"
proof (intro conjI impI)
  have "isl (read_mime P (concat pre @ bad @ rest))"
    by (rule read_mime_isl) (rule read_headers_aborts[OF header])
  then obtain e where e: "read_mime P (concat pre @ bad @ rest) = Inl e"
    by (cases "read_mime P (concat pre @ bad @ rest)") auto
  have "read_members_loop P fs root (filename # after) = Inl e"
    by (rule loop_head_fails[OF admitted content e])
  then have "isl (read_members_loop P fs root (before @ filename # after))"
    using loop_isl_append[of P fs root "filename # after" before] by simp
  then obtain e' where "read_members_loop P fs root (before @ filename # after) = Inl e'"
    by (cases "read_members_loop P fs root (before @ filename # after)") auto
  from MetaView_init_Inl[OF listing this] show "isl (MetaView_init P fs root)" by simp
next
  assume a: "wellformed_block P pre \<and> \<not> isl (read_members_loop P fs root before)"
  then have "read_headers P [] [] (concat pre @ bad @ rest) = Inl ValueError"
    using read_headers_first_failure[of P pre "[]" bad rest "[]"] header(2,3)
    by (simp add: wellformed_block_def)
  then have "read_mime P (concat pre @ bad @ rest) = Inl ValueError" by (rule read_mime_Inl)
  then have "read_members_loop P fs root (filename # after) = Inl ValueError"
    by (rule loop_head_fails[OF admitted content])
  with a have "read_members_loop P fs root (before @ filename # after) = Inl ValueError"
    using loop_Inl_append by blast
  from MetaView_init_Inl[OF listing this] show "MetaView_init P fs root = Inl ValueError" .
qed

theorem malformed_member_file_aborts_witness:
  "wellformed_block ascii_runtime [''name: Bob'' @ [newline]]
   \<and> malformed_line ascii_runtime (''no separator here'' @ [newline])
   \<and> \<not> isl (read_members_loop ascii_runtime malformed_fs ''repo'' [''0001_ann.txt''])
   \<and> MetaView_init ascii_runtime malformed_fs ''repo'' = Inl ValueError"
  using malformed_member_file_aborts[of malformed_fs "''repo''" "[''0001_ann.txt'']"
      "''0002_bob.txt''" "[]" "''0002''" "''bob''" ascii_runtime "u ''0002_bob.txt''"
      "[''name: Bob'' @ [newline]]" "''no separator here'' @ [newline]" "[]"]
  by (simp add: malformed_fs_def wellformed_block_def wellformed_line_def kv_line_def
      header_line_def last_line_def malformed_line_def is_line_def eval_defs)

subsection \<open>The identity resolver\<close>

lemma read_headers_hash:
  "read_headers P hs h f = Inr (hs', h', rest) \<Longrightarrow> h' @ rest = h @ f"
proof (induction P hs h f rule: read_headers.induct)
  case (1 P hs h f)
  have app: "fst (readline f) @ snd (readline f) = f" by (rule readline_append)
  show ?case
  proof (cases "list_all is_space_byte (fst (readline f))")
    case True
    with "1.prems" have "h' = h @ fst (readline f)" "rest = snd (readline f)"
      by (subst (asm) read_headers.simps, simp)+
    with app show ?thesis by simp
  next
    case nb: False
    show ?thesis
    proof (cases "utf8_decode P (rstrip_crlf (fst (readline f)))")
      case None
      with "1.prems" nb show ?thesis by (subst (asm) read_headers.simps) simp
    next
      case (Some line)
      show ?thesis
      proof (cases "line = []")
        case True
        with "1.prems" nb Some have "h' = h @ fst (readline f)" "rest = snd (readline f)"
          by (subst (asm) read_headers.simps, simp)+
        with app show ?thesis by simp
      next
        case ne: False
        show ?thesis
        proof (cases "kv_re line")
          case (Some kv)
          with "1.prems" nb \<open>utf8_decode P (rstrip_crlf (fst (readline f))) = Some line\<close> ne
          have "read_headers P (hs @ [kv]) (h @ fst (readline f)) (snd (readline f))
                  = Inr (hs', h', rest)"
            by (subst (asm) read_headers.simps) simp
          from "1.IH"(2)[OF nb \<open>utf8_decode P (rstrip_crlf (fst (readline f))) = Some line\<close> ne Some this]
          show ?thesis using app by (metis append.assoc)
        next
          case None
          with "1.prems" nb \<open>utf8_decode P (rstrip_crlf (fst (readline f))) = Some line\<close> ne
          have c: "starts_with_space P line" "hs \<noteq> []"
            and r: "read_headers P
                      (butlast hs @ [(fst (last hs), snd (last hs) @ [32] @ drop 1 line)])
                      (h @ fst (readline f)) (snd (readline f)) = Inr (hs', h', rest)"
            by (subst (asm) read_headers.simps, simp split: if_splits)+
          from "1.IH"(1)[OF nb \<open>utf8_decode P (rstrip_crlf (fst (readline f))) = Some line\<close> ne None c r]
          show ?thesis using app by (metis append.assoc)
        qed
      qed
    qed
  qed
qed

lemma read_mime_checksum: "read_mime P f = Inr (hs, payload, cs) \<Longrightarrow> cs = sha1_hex P f"
  by (auto simp: read_mime_def split: sum.splits dest: read_headers_hash)

lemma Member_init_checksum:
  "Member_init P fs root pth n i f = Inr m \<Longrightarrow> checksum m = sha1_hex P f"
proof -
  assume a: "Member_init P fs root pth n i f = Inr m"
  then obtain hs payload cs where r: "read_mime P f = Inr (hs, payload, cs)"
    by (cases "read_mime P f") (auto simp: Member_init_def Person_init_def)
  with a have "checksum m = cs"
    by (auto simp: Member_init_def Person_init_def split: option.splits)
  with read_mime_checksum[OF r] show ?thesis by simp
qed

lemma link_init: "MetaView_init ascii_runtime link_fs ''repo'' = Inr link_metaview"
  by (simp add: eval_defs link_fs_def link_metaview_def ann_def)

lemma ann_init:
  "Member_init ascii_runtime link_fs ''repo'' ''0001_ann.txt'' 1 ''ann'' (''name: Ann'' @ [newline])
     = Inr ann"
  by (simp add: eval_defs link_fs_def ann_def)

lemma link_indices:
  "map_of (members_by_path link_metaview) (path ann) = Some ann"
  "map_of (members_by_checksum link_metaview) (checksum ann) = Some ann"
  "map_of (members_by_checksum link_metaview) (sha1_hex ascii_runtime (''name: Eve'' @ [newline])) = None"
  by (simp_all add: link_metaview_def index_member_def empty_metaview_def ann_def ascii_runtime_def newline_def)

lemma link_fs_facts:
  "readlink link_fs ''repo/projects/p/PROJECT_LEAD'' = Inr ''../../members/0001_ann.txt''"
  "canon link_fs (path_join (dirname ''repo/projects/p/PROJECT_LEAD'') ''../../members/0001_ann.txt'')
     = path ann"
  "readlink link_fs ''repo/projects/p/copy'' = Inl OSError"
  "open_read link_fs (canon link_fs ''repo/projects/p/copy'') = Inr (''name: Ann'' @ [newline])"
  "readlink link_fs ''repo/projects/p/other'' = Inl OSError"
  "open_read link_fs (canon link_fs ''repo/projects/p/other'') = Inr (''name: Eve'' @ [newline])"
  "readlink link_fs ''repo/projects/p/missing'' = Inl OSError"
  "open_read link_fs (canon link_fs ''repo/projects/p/missing'') = Inl IOError_ENOENT"
  by (simp_all add: link_fs_def path_join_def dirname_def ann_def)

lemma locate_linked_member_cases:
  "(readlink fs pth = Inr target
      \<and> canon fs (path_join (dirname pth) target) = path m
      \<and> map_of (members_by_path mv) (path m) = Some m
      \<longrightarrow> locate_linked_member P fs mv pth = Inr (Some m))
   \<and> ((readlink fs pth = Inl OSError
        \<or> (readlink fs pth = Inr target
            \<and> map_of (members_by_path mv) (canon fs (path_join (dirname pth) target)) = None))
      \<and> open_read fs (canon fs pth) = Inr f
      \<and> Member_init P fs' root filename n i f = Inr m
      \<and> map_of (members_by_checksum mv) (checksum m) = Some m
      \<longrightarrow> locate_linked_member P fs mv pth = Inr (Some m))
   \<and> ((readlink fs pth = Inl OSError
        \<or> (readlink fs pth = Inr target
            \<and> map_of (members_by_path mv) (canon fs (path_join (dirname pth) target)) = None))
      \<and> open_read fs (canon fs pth) = Inr f
      \<and> map_of (members_by_checksum mv) (sha1_hex P f) = None
      \<longrightarrow> locate_linked_member P fs mv pth = Inr None)
   \<and> ((readlink fs pth = Inl OSError
        \<or> (readlink fs pth = Inr target
            \<and> map_of (members_by_path mv) (canon fs (path_join (dirname pth) target)) = None))
      \<and> open_read fs (canon fs pth) \<in> {Inl IOError, Inl IOError_ENOENT}
      \<longrightarrow> locate_linked_member P fs mv pth = Inr None)"
proof (intro conjI impI)
  assume "readlink fs pth = Inr target
      \<and> canon fs (path_join (dirname pth) target) = path m
      \<and> map_of (members_by_path mv) (path m) = Some m"
  then show "locate_linked_member P fs mv pth = Inr (Some m)"
    by (simp add: locate_linked_member_def Let_def)
next
  assume a: "(readlink fs pth = Inl OSError
        \<or> (readlink fs pth = Inr target
            \<and> map_of (members_by_path mv) (canon fs (path_join (dirname pth) target)) = None))
      \<and> open_read fs (canon fs pth) = Inr f
      \<and> Member_init P fs' root filename n i f = Inr m
      \<and> map_of (members_by_checksum mv) (checksum m) = Some m"
  then have "checksum m = sha1_hex P f" using Member_init_checksum by blast
  with a show "locate_linked_member P fs mv pth = Inr (Some m)"
    by (auto simp: locate_linked_member_def Let_def)
next
  assume "(readlink fs pth = Inl OSError
        \<or> (readlink fs pth = Inr target
            \<and> map_of (members_by_path mv) (canon fs (path_join (dirname pth) target)) = None))
      \<and> open_read fs (canon fs pth) = Inr f
      \<and> map_of (members_by_checksum mv) (sha1_hex P f) = None"
  then show "locate_linked_member P fs mv pth = Inr None"
    by (auto simp: locate_linked_member_def Let_def)
next
  assume "(readlink fs pth = Inl OSError
        \<or> (readlink fs pth = Inr target
            \<and> map_of (members_by_path mv) (canon fs (path_join (dirname pth) target)) = None))
      \<and> open_read fs (canon fs pth) \<in> {Inl IOError, Inl IOError_ENOENT}"
  then show "locate_linked_member P fs mv pth = Inr None"
    by (auto simp: locate_linked_member_def Let_def)
qed

subsection \<open>Projects\<close>

lemma link_project_facts:
  "Project_pypi_info ascii_runtime link_fs link_metaview \<lparr>internal_name = ''p''\<rparr> = Inr None"
  "Project_meta ascii_runtime link_fs link_metaview \<lparr>internal_name = ''p''\<rparr> = Inr []"
  "Project_extension_status ascii_runtime link_fs link_metaview \<lparr>internal_name = ''p''\<rparr> = Inr None"
  "Project_stewards ascii_runtime link_fs link_metaview \<lparr>internal_name = ''p''\<rparr> = Inr []"
  by (simp_all add: Project_pypi_info_def open_cache_file_def Project_meta_def
      Project_extension_status_def Project_stewards_def Project_path_def link_fs_def
      link_metaview_def index_member_def empty_metaview_def projects_path_def path_join_def
      ascii_runtime_def)

lemma iter_projects_Nil: "iter_projects mv = [] \<longleftrightarrow> projects mv = []"
proof -
  have "length (iter_projects mv) = length (projects mv)"
    by (simp add: iter_projects_def)
  then show ?thesis by (metis length_0_conv)
qed

text \<open>
  C9. For a project whose cached package-info snapshot is absent (\<open>pypi_info\<close> is
  \<open>None\<close>), the full serialization raises \<open>TypeError\<close>: \<open>info.get('classifiers')\<close> is
  \<open>None\<close> and the \<open>for\<close> loop iterates it. The compact serialization returns before
  that loop: when the project's \<open>META\<close>, extension status and stewards load, it is the
  compact document with \<open>latest_release\<close> \<open>None\<close>.
\<close>

theorem to_json_without_pypi_info:
  assumes "Project_pypi_info P fs mv proj = Inr None"
  shows "Project_to_json P fs mv full proj False = Inl TypeError
       \<and> (Project_meta P fs mv proj = Inr m
            \<and> Project_extension_status P fs mv proj = Inr es
            \<and> Project_stewards P fs mv proj = Inr ss
          \<longrightarrow> Project_to_json P fs mv full proj True
                = Inr (Inl \<lparr>pc_internal_name = internal_name proj,
                            pc_name = headers_get P m (u ''name''),
                            pc_github = headers_get P m (u ''github''),
                            pc_is_extension = (es \<noteq> None),
                            pc_latest_release = JNull,
                            pc_pypi = headers_get P m (u ''pypi''),
                            pc_stewards = map (Member_to_json_compact P) ss\<rparr>))"
  using assms by (simp add: Project_to_json_def)

theorem to_json_without_pypi_info_witness:
  "Project_pypi_info ascii_runtime link_fs link_metaview \<lparr>internal_name = ''p''\<rparr> = Inr None
   \<and> Project_to_json ascii_runtime link_fs link_metaview (\<lambda>p i l s. Inr ()) \<lparr>internal_name = ''p''\<rparr> False
       = Inl TypeError
   \<and> Project_to_json ascii_runtime link_fs link_metaview (\<lambda>p i l s. Inr ()) \<lparr>internal_name = ''p''\<rparr> True
       = Inr (Inl \<lparr>pc_internal_name = ''p'', pc_name = None, pc_github = None,
                   pc_is_extension = False, pc_latest_release = JNull, pc_pypi = None,
                   pc_stewards = []\<rparr>)"
  using to_json_without_pypi_info[of ascii_runtime link_fs link_metaview
      "\<lparr>internal_name = ''p''\<rparr>" "\<lambda>p i l s. Inr ()" "[]" None "[]"]
  by (simp add: link_project_facts)

text \<open>
  C10. No entity class defines an attribute \<open>has_stewards\<close>, so on a registry that was
  built \<open>list_needs_stewards_api\<close> raises \<open>AttributeError\<close> as soon as there is one
  project to test, and returns the empty list only when there is none.
\<close>

theorem needs_stewards_raises:
  assumes "MetaView_init P fs root = Inr mv"
  shows "''has_stewards'' \<notin> set (Project_attributes @ Member_attributes @ Person_attributes
                                   @ ExtensionStatus_attributes @ MetaView_attributes)
       \<and> list_needs_stewards_api P fs root truth full
           = (if projects mv = [] then Inr [] else Inl AttributeError)"
proof -
  have no: "''has_stewards'' \<notin> set (Project_attributes @ Member_attributes @ Person_attributes
                                   @ ExtensionStatus_attributes @ MetaView_attributes)"
    by (simp add: Project_attributes_def Member_attributes_def Person_attributes_def
        ExtensionStatus_attributes_def MetaView_attributes_def MetaViewContainer_attributes_def
        object_attributes_def)
  then have g: "\<And>x. Project_getattr truth x ''has_stewards'' = Inl AttributeError"
    by (simp add: Project_getattr_def)
  have "needs_stewards_loop P fs mv truth full (iter_projects mv)
          = (if projects mv = [] then Inr [] else Inl AttributeError)"
  proof (cases "iter_projects mv")
    case Nil
    then show ?thesis using iter_projects_Nil[of mv] by simp
  next
    case (Cons x xs)
    then show ?thesis using iter_projects_Nil[of mv] by (simp add: g)
  qed
  with assms no show ?thesis by (simp add: list_needs_stewards_api_def)
qed

theorem needs_stewards_raises_witness:
  "MetaView_init ascii_runtime link_fs ''repo'' = Inr link_metaview
   \<and> projects link_metaview = [(''p'', \<lparr>internal_name = ''p''\<rparr>)]
   \<and> list_needs_stewards_api ascii_runtime link_fs ''repo'' (\<lambda>p a. Inr True) (\<lambda>p i l s. Inr ())
       = Inl AttributeError"
  using needs_stewards_raises[of ascii_runtime link_fs "''repo''" link_metaview
      "\<lambda>p a. Inr True" "\<lambda>p i l s. Inr ()"]
  by (simp add: link_init) (simp add: link_metaview_def)

subsection \<open>Reconciliation\<close>

lemma sync_intended_ok:
  "sync_intended R cur ms new r = (acts, Inr new', r') \<Longrightarrow>
     map snd acts = ms \<and> new' = new \<union> set ms \<and> fst ` set acts \<subseteq> {added, pending, retained}"
proof (induction ms arbitrary: new r acts)
  case Nil
  then show ?case by simp
next
  case (Cons m ms)
  show ?case
  proof (cases "m \<in> cur")
    case True
    obtain a1 res1 r1 where rec: "sync_intended R cur ms (insert m new) r = (a1, res1, r1)"
      by (cases "sync_intended R cur ms (insert m new) r") auto
    with Cons.prems True have "acts = (retained, m) # a1" "res1 = Inr new'" "r1 = r'" by auto
    with Cons.IH[of "insert m new" r a1] rec show ?thesis by auto
  next
    case False
    obtain pr r1 where p: "member_is_pending R m r = (pr, r1)"
      by (cases "member_is_pending R m r") auto
    show ?thesis
    proof (cases pr)
      case (Inl e)
      with Cons.prems False p show ?thesis by simp
    next
      case (Inr b)
      show ?thesis
      proof (cases b)
        case True
        obtain a1 res1 r2 where rec: "sync_intended R cur ms (insert m new) r1 = (a1, res1, r2)"
          by (cases "sync_intended R cur ms (insert m new) r1") auto
        with Cons.prems False p Inr True have "acts = (pending, m) # a1" "res1 = Inr new'" "r2 = r'" by auto
        with Cons.IH[of "insert m new" r1 a1] rec show ?thesis by auto
      next
        case nb: False
        obtain ar r2 where a: "add_member R m r1 = (ar, r2)"
          by (cases "add_member R m r1") auto
        show ?thesis
        proof (cases ar)
          case (Some e)
          with Cons.prems False p Inr nb a show ?thesis by simp
        next
          case None
          obtain a1 res1 r3 where rec: "sync_intended R cur ms (insert m new) r2 = (a1, res1, r3)"
            by (cases "sync_intended R cur ms (insert m new) r2") auto
          with Cons.prems False p Inr nb a None have "acts = (added, m) # a1" "res1 = Inr new'" "r3 = r'" by auto
          with Cons.IH[of "insert m new" r2 a1] rec show ?thesis by auto
        qed
      qed
    qed
  qed
qed

lemma sync_deleted_ok:
  "sync_deleted R ms r = (acts, None, r') \<Longrightarrow> acts = map (Pair deleted) ms"
proof (induction ms arbitrary: r acts)
  case Nil
  then show ?case by simp
next
  case (Cons m ms)
  obtain ar r1 where a: "remove_member R m r = (ar, r1)" by (cases "remove_member R m r") auto
  show ?case
  proof (cases ar)
    case (Some e)
    with Cons.prems a show ?thesis by simp
  next
    case None
    obtain a1 res1 r2 where rec: "sync_deleted R ms r1 = (a1, res1, r2)"
      by (cases "sync_deleted R ms r1") auto
    with Cons.prems a None have "acts = (deleted, m) # a1" "res1 = None" "r2 = r'" by auto
    with Cons.IH[of r1 a1] rec show ?thesis by simp
  qed
qed

lemma sync_members_split:
  assumes cur: "get_current_members R r = (Inr logins, r1)"
    and run: "sync_members R enum P mv r = (acts, None, r')"
    and eI: "set (enum (set (get_intended_members P mv))) = set (get_intended_members P mv)"
  shows "\<exists>a1. acts = a1 @ map (Pair deleted) (enum (Some ` set logins - set (get_intended_members P mv)))
     \<and> map snd a1 = enum (set (get_intended_members P mv))
     \<and> fst ` set a1 \<subseteq> {added, pending, retained}"
proof -
  let ?I = "set (get_intended_members P mv)" and ?C = "Some ` set logins"
  obtain a1 res1 r2 where s1: "sync_intended R ?C (enum ?I) {} r1 = (a1, res1, r2)"
    by (cases "sync_intended R ?C (enum ?I) {} r1") auto
  show ?thesis
  proof (cases res1)
    case (Inl e)
    with cur run s1 show ?thesis by (simp add: sync_members_def)
  next
    case (Inr new)
    from sync_intended_ok[OF s1[unfolded Inr]] eI
    have a1: "map snd a1 = enum ?I" "new = ?I" "fst ` set a1 \<subseteq> {added, pending, retained}"
      by auto
    obtain a2 res2 r3 where s2: "sync_deleted R (enum (?C - new)) r2 = (a2, res2, r3)"
      by (cases "sync_deleted R (enum (?C - new)) r2") auto
    with cur run s1 Inr have "acts = a1 @ a2" "res2 = None" by (auto simp: sync_members_def)
    with sync_deleted_ok[of R "enum (?C - new)" r2 a2 r3] s2 a1 show ?thesis by auto
  qed
qed

lemma example_intended:
  "get_intended_members ascii_runtime example_metaview
     = [Some (u ''alice''), Some (u ''bob''), Some (u ''carol'')]"
  by (simp add: get_intended_members_def iter_members_def example_metaview_def index_member_def
      empty_metaview_def example_member_def github_def ascii_runtime_def u_def ascii_lower_def)

lemma example_run: "sync_members example_roster example_enum ascii_runtime example_metaview [] = 
   ([(added, Some (u ''carol'')), (retained, Some (u ''bob'')), (added, Some (u ''alice'')), (deleted, Some (u ''dave''))], None,
    [(added, Some (u ''carol'')), (added, Some (u ''alice'')), (deleted, Some (u ''dave''))])"
  by (simp add: sync_members_def example_intended example_roster_def example_enum_def u_def)

text \<open>
  C1. Reconciliation completeness. Let \<open>I\<close> be the set of intended identities and \<open>C\<close>
  the set of identities the roster returns. In a pass that no remote call interrupts,
  with each of the two sets iterated handing out its members once each, the identities of
  the actions are pairwise distinct and are exactly \<open>I \<union> (C - I)\<close>; an action on a member
  of \<open>I\<close> is tagged added, pending or retained, and an action on any other identity is
  tagged deleted.
\<close>

theorem sync_members_complete:
  assumes cur: "get_current_members R r = (Inr logins, r1)"
    and run: "sync_members R enum P mv r = (acts, None, r')"
    and eI: "set (enum (set (get_intended_members P mv))) = set (get_intended_members P mv)"
            "distinct (enum (set (get_intended_members P mv)))"
    and eD: "set (enum (Some ` set logins - set (get_intended_members P mv)))
               = Some ` set logins - set (get_intended_members P mv)"
            "distinct (enum (Some ` set logins - set (get_intended_members P mv)))"
  shows "distinct (map snd acts)
       \<and> snd ` set acts = set (get_intended_members P mv)
                            \<union> (Some ` set logins - set (get_intended_members P mv))
       \<and> fst ` {a \<in> set acts. snd a \<in> set (get_intended_members P mv)} \<subseteq> {added, pending, retained}
       \<and> fst ` {a \<in> set acts. snd a \<notin> set (get_intended_members P mv)} \<subseteq> {deleted}"
proof -
  let ?I = "set (get_intended_members P mv)" and ?C = "Some ` set logins"
  from sync_members_split[OF cur run eI(1)] obtain a1 where
    acts: "acts = a1 @ map (Pair deleted) (enum (?C - ?I))"
    and a1: "map snd a1 = enum ?I" "fst ` set a1 \<subseteq> {added, pending, retained}"
    by blast
  have snd1: "snd ` set a1 = ?I" using a1(1) eI(1) by (metis set_map)
  have m2: "map snd (map (Pair deleted) (enum (?C - ?I))) = enum (?C - ?I)"
    by (simp add: comp_def)
  have d: "distinct (map snd acts)"
    unfolding acts using a1(1) eI eD by (auto simp: comp_def)
  have s: "snd ` set acts = ?I \<union> (?C - ?I)"
    unfolding acts using snd1 eD(1) by (auto simp: image_Un image_image)
  have t1: "fst ` {a \<in> set acts. snd a \<in> ?I} \<subseteq> {added, pending, retained}"
  proof
    fix t assume "t \<in> fst ` {a \<in> set acts. snd a \<in> ?I}"
    then obtain a where a: "a \<in> set acts" "snd a \<in> ?I" "t = fst a" by auto
    from a(1) acts have "a \<in> set a1 \<or> a \<in> Pair deleted ` set (enum (?C - ?I))" by auto
    then show "t \<in> {added, pending, retained}"
    proof
      assume "a \<in> set a1" with a1(2) a(3) show ?thesis by auto
    next
      assume "a \<in> Pair deleted ` set (enum (?C - ?I))"
      then have "snd a \<in> ?C - ?I" using eD(1) by auto
      with a(2) show ?thesis by simp
    qed
  qed
  have t2: "fst ` {a \<in> set acts. snd a \<notin> ?I} \<subseteq> {deleted}"
  proof
    fix t assume "t \<in> fst ` {a \<in> set acts. snd a \<notin> ?I}"
    then obtain a where a: "a \<in> set acts" "snd a \<notin> ?I" "t = fst a" by auto
    from a(1) acts have "a \<in> set a1 \<or> a \<in> Pair deleted ` set (enum (?C - ?I))" by auto
    then show "t \<in> {deleted}"
    proof
      assume "a \<in> set a1"
      then have "snd a \<in> ?I" using snd1 by auto
      with a(2) show ?thesis by simp
    next
      assume "a \<in> Pair deleted ` set (enum (?C - ?I))"
      with a(3) show ?thesis by auto
    qed
  qed
  from d s t1 t2 show ?thesis by blast
qed

theorem sync_members_complete_witness:
  "get_current_members example_roster [] = (Inr [u ''bob'', u ''dave''], [])
   \<and> snd ` set (fst (sync_members example_roster example_enum ascii_runtime example_metaview []))
       = {Some (u ''alice''), Some (u ''bob''), Some (u ''carol''), Some (u ''dave'')}
   \<and> distinct (map snd (fst (sync_members example_roster example_enum ascii_runtime example_metaview [])))"
  using sync_members_complete[of example_roster "[]" "[u ''bob'', u ''dave'']" "[]" example_enum
      ascii_runtime example_metaview
      "[(added, Some (u ''carol'')), (retained, Some (u ''bob'')), (added, Some (u ''alice'')), (deleted, Some (u ''dave''))]"
      "[(added, Some (u ''carol'')), (added, Some (u ''alice'')), (deleted, Some (u ''dave''))]"]
  by (simp add: example_run example_intended) (auto simp: example_roster_def example_enum_def u_def)

text \<open>
  C2, as the code has it. The intended identities are processed in the order in which
  the \<open>set\<close> built from the intended list hands them out, one action each, and only then
  the identities that are current only, each with a deleted action: the first \<open>card I\<close>
  actions are on the members of \<open>I\<close> in the set's order, the rest are the deletions.
\<close>

theorem sync_members_order:
  assumes cur: "get_current_members R r = (Inr logins, r1)"
    and run: "sync_members R enum P mv r = (acts, None, r')"
    and eI: "set (enum (set (get_intended_members P mv))) = set (get_intended_members P mv)"
            "distinct (enum (set (get_intended_members P mv)))"
  shows "map snd (take (card (set (get_intended_members P mv))) acts)
           = enum (set (get_intended_members P mv))
       \<and> fst ` set (take (card (set (get_intended_members P mv))) acts) \<subseteq> {added, pending, retained}
       \<and> drop (card (set (get_intended_members P mv))) acts
           = map (Pair deleted) (enum (Some ` set logins - set (get_intended_members P mv)))"
proof -
  let ?I = "set (get_intended_members P mv)" and ?C = "Some ` set logins"
  from sync_members_split[OF cur run eI(1)] obtain a1 where
    acts: "acts = a1 @ map (Pair deleted) (enum (?C - ?I))"
    and a1: "map snd a1 = enum ?I" "fst ` set a1 \<subseteq> {added, pending, retained}"
    by blast
  have "length a1 = length (enum ?I)" using a1(1) by (metis length_map)
  also have "\<dots> = card ?I" using eI by (metis distinct_card)
  finally have "length a1 = card ?I" .
  with acts a1 show ?thesis by simp
qed

theorem sync_members_order_witness:
  "map snd (take 3 (fst (sync_members example_roster example_enum ascii_runtime example_metaview [])))
     = [Some (u ''carol''), Some (u ''bob''), Some (u ''alice'')]
   \<and> drop 3 (fst (sync_members example_roster example_enum ascii_runtime example_metaview []))
     = [(deleted, Some (u ''dave''))]"
  using sync_members_order[of example_roster "[]" "[u ''bob'', u ''dave'']" "[]" example_enum
      ascii_runtime example_metaview
      "[(added, Some (u ''carol'')), (retained, Some (u ''bob'')), (added, Some (u ''alice'')), (deleted, Some (u ''dave''))]"
      "[(added, Some (u ''carol'')), (added, Some (u ''alice'')), (deleted, Some (u ''dave''))]"]
  by (simp add: example_run example_intended)

text \<open>
  C2, as stated, fails. With the intended list alice, bob, carol, the roster bob and
  dave, and bob not pending, a set that hands out carol, bob, alice makes the pass emit
  added carol, retained bob, added alice, deleted dave, which is not the sequence in
  ascending member number.
\<close>

theorem sync_members_order_counterexample:
  "get_intended_members ascii_runtime example_metaview
     = [Some (u ''alice''), Some (u ''bob''), Some (u ''carol'')]
   \<and> get_current_members example_roster [] = (Inr [u ''bob'', u ''dave''], [])
   \<and> member_is_pending example_roster (Some (u ''bob'')) [] = (Inr False, [])
   \<and> set (example_enum {Some (u ''alice''), Some (u ''bob''), Some (u ''carol'')})
       = {Some (u ''alice''), Some (u ''bob''), Some (u ''carol'')}
   \<and> distinct (example_enum {Some (u ''alice''), Some (u ''bob''), Some (u ''carol'')})
   \<and> fst (sync_members example_roster example_enum ascii_runtime example_metaview [])
       = [(added, Some (u ''carol'')), (retained, Some (u ''bob'')),
          (added, Some (u ''alice'')), (deleted, Some (u ''dave''))]
   \<and> fst (sync_members example_roster example_enum ascii_runtime example_metaview [])
       \<noteq> [(added, Some (u ''alice'')), (retained, Some (u ''bob'')),
          (added, Some (u ''carol'')), (deleted, Some (u ''dave''))]"
  by (simp add: example_run example_intended) (auto simp: example_roster_def example_enum_def u_def)

lemma get_intended_members_length:
  "length (get_intended_members P mv) = length (iter_members mv)"
  by (simp add: get_intended_members_def)

text \<open>
  C3 (fails on the code). The intended list is claimed to drop every member without a
  GitHub handle. \<open>get_intended_members\<close> drops nothing: it has one entry for every member
  of \<open>iter_members\<close>, and on a checkout whose only member has no \<open>github\<close> header it
  returns the list holding \<open>None\<close>.
\<close>

theorem get_intended_members_keeps_None:
  "map_sum id (get_intended_members ascii_runtime)
     (MetaView_init ascii_runtime nohandle_fs ''repo'') = Inr [None]"
  by (simp add: MetaView_init_def read_members_def read_projects_def nohandle_fs_def member_path_def projects_path_def path_join_def
     member_re_def is_digit_def newline_def ascii_runtime_def Member_init_def Person_init_def read_mime_def read_headers.simps
     is_space_byte_def rstrip_crlf_def kv_re_def kv_here_def re_space_def colon_def starts_with_space_def
     get_intended_members_def iter_members_def index_member_def empty_metaview_def github_def u_def ascii_lower_def int_of_digits_def u_rstrip_def)

subsection \<open>The sponsorship tree\<close>

lemma links_fold:
  "(case map_of (foldl (\<lambda>d m. setdefault_append d (f m) m) d ms) s of None \<Rightarrow> [] | Some l \<Rightarrow> l)
     = (case map_of d s of None \<Rightarrow> [] | Some l \<Rightarrow> l) @ filter (\<lambda>m. f m = s) ms"
proof (induction ms arbitrary: d)
  case Nil
  then show ?case by simp
next
  case (Cons m ms)
  show ?case
    by (simp add: Cons.IH) (simp add: setdefault_append_def update_conv')
qed

lemma children_filter:
  "children P mv s = filter (\<lambda>m. sponsor P mv m = s) (iter_members mv)"
  unfolding children_def links_def using links_fold[of "sponsor P mv" "[]" "iter_members mv" s]
  by simp

text \<open>A path of the tree, read upwards: each member's sponsor is the next entry, and the last is the root.\<close>

fun chain :: "runtime \<Rightarrow> metaview \<Rightarrow> member option list \<Rightarrow> bool" where
  "chain P mv [] = False"
| "chain P mv [x] = (x = None)"
| "chain P mv (x # y # zs) =
     (case x of None \<Rightarrow> False
      | Some m \<Rightarrow> m \<in> set (iter_members mv) \<and> sponsor P mv m = y \<and> chain P mv (y # zs))"

fun up :: "runtime \<Rightarrow> metaview \<Rightarrow> member option \<Rightarrow> member option" where
  "up P mv None = None"
| "up P mv (Some m) = sponsor P mv m"

lemma up_None_funpow: "(up P mv ^^ k) None = None"
  by (induction k) auto

lemma chain_rank:
  "chain P mv (x # rest) \<Longrightarrow>
     (up P mv ^^ length rest) x = None \<and> (\<forall>j < length rest. (up P mv ^^ j) x \<noteq> None)"
proof (induction rest arbitrary: x)
  case Nil
  then show ?case by simp
next
  case (Cons y zs)
  from Cons.prems obtain m where x: "x = Some m" "sponsor P mv m = y" "chain P mv (y # zs)"
    by (cases x) auto
  from Cons.IH[OF x(3)] have ih: "(up P mv ^^ length zs) y = None"
    "\<forall>j < length zs. (up P mv ^^ j) y \<noteq> None" by auto
  have step: "\<And>k. (up P mv ^^ Suc k) x = (up P mv ^^ k) y"
    using x by (simp add: funpow_swap1)
  show ?case
  proof (intro conjI allI impI)
    show "(up P mv ^^ length (y # zs)) x = None" using step ih(1) by simp
  next
    fix j assume j: "j < length (y # zs)"
    show "(up P mv ^^ j) x \<noteq> None"
    proof (cases j)
      case 0 then show ?thesis using x by simp
    next
      case (Suc k)
      with j have "k < length zs" by simp
      with ih(2) step Suc show ?thesis by simp
    qed
  qed
qed

lemma chain_suffix: "chain P mv (xs @ y # ys) \<Longrightarrow> chain P mv (y # ys)"
proof (induction xs)
  case Nil then show ?case by simp
next
  case (Cons x xs)
  then show ?case by (cases xs) (auto split: option.splits)
qed

lemma chain_distinct: "chain P mv xs \<Longrightarrow> distinct xs"
proof (induction xs)
  case Nil then show ?case by simp
next
  case (Cons x rest)
  have "x \<notin> set rest"
  proof
    assume "x \<in> set rest"
    then obtain pre post where sp: "rest = pre @ x # post" by (meson split_list)
    with Cons.prems have "chain P mv (x # post)"
      using chain_suffix[of P mv "x # pre" x post] by simp
    from chain_rank[OF this] have "(up P mv ^^ length post) x = None" by simp
    moreover have "length post < length rest" using sp by simp
    ultimately show False using chain_rank[OF Cons.prems] by blast
  qed
  moreover have "distinct rest"
  proof (cases rest)
    case Nil then show ?thesis by simp
  next
    case (Cons y zs)
    with Cons.prems have "chain P mv rest" by (cases x) auto
    with Cons.IH show ?thesis by simp
  qed
  ultimately show ?case by simp
qed

lemma chain_members: "chain P mv xs \<Longrightarrow> set xs \<subseteq> insert None (Some ` set (iter_members mv))"
proof (induction xs)
  case Nil then show ?case by simp
next
  case (Cons x rest)
  show ?case
  proof (cases rest)
    case Nil with Cons.prems show ?thesis by simp
  next
    case (Cons y zs)
    with Cons.prems Cons.IH show ?thesis by (cases x) auto
  qed
qed

lemma chain_length: 
  assumes "chain P mv xs" shows "length xs \<le> Suc (length (iter_members mv))"
proof -
  have "length xs = card (set xs)" using chain_distinct[OF assms] by (simp add: distinct_card)
  also have "\<dots> \<le> card (insert None (Some ` set (iter_members mv)))"
    by (rule card_mono) (use chain_members[OF assms] in auto)
  also have "\<dots> \<le> Suc (card (Some ` set (iter_members mv)))"
    by (simp add: card_insert_if)
  also have "\<dots> \<le> Suc (length (iter_members mv))"
    by (metis Suc_le_mono card_image_le card_length le_trans List.finite_set)
  finally show ?thesis .
qed

lemma set_update_subset: "set (AList.update k v al) \<subseteq> insert (k, v) (set al)"
  by (induction al) auto

lemma index_member_by_num:
  "members_by_num (index_member P mv mem) = AList.update (num mem) mem (members_by_num mv)"
  by (simp add: index_member_def)

lemma foldl_index_member_nums:
  "distinct (map fst (members_by_num mv)) \<Longrightarrow>
   (\<And>k m. (k, m) \<in> set (members_by_num mv) \<Longrightarrow> k = num m) \<Longrightarrow>
   distinct (map fst (members_by_num (foldl (index_member P) mv ms)))
   \<and> (\<forall>(k, m) \<in> set (members_by_num (foldl (index_member P) mv ms)). k = num m)"
proof (induction ms arbitrary: mv)
  case Nil
  then show ?case by auto
next
  case (Cons mem ms)
  have d: "distinct (map fst (members_by_num (index_member P mv mem)))"
    using Cons.prems(1) by (simp add: index_member_by_num distinct_update)
  have k: "\<And>k m. (k, m) \<in> set (members_by_num (index_member P mv mem)) \<Longrightarrow> k = num m"
    using Cons.prems(2) set_update_subset[of "num mem" mem "members_by_num mv"]
    by (auto simp: index_member_by_num)
  from Cons.IH[OF d k] show ?case by simp
qed

lemma MetaView_init_by_num:
  assumes "MetaView_init P fs root = Inr mv"
  shows "distinct (map fst (members_by_num mv))
       \<and> (\<forall>(k, m) \<in> set (members_by_num mv). k = num m)"
proof -
  from assms obtain ms ps where
    mv: "mv = (foldl (index_member P) (empty_metaview root) ms)
                \<lparr>projects := foldl (\<lambda>d p. AList.update (internal_name p) p d) [] ps\<rparr>"
    by (auto simp: MetaView_init_def split: sum.splits)
  have "distinct (map fst (members_by_num (empty_metaview root)))"
    and "\<And>k m. (k, m) \<in> set (members_by_num (empty_metaview root)) \<Longrightarrow> k = num m"
    by (simp_all add: empty_metaview_def)
  from foldl_index_member_nums[OF this, of P ms] show ?thesis by (simp add: mv)
qed

lemma map_num_snd:
  "\<forall>(k, m) \<in> set al. k = num m \<Longrightarrow> map num (map snd al) = map fst al"
  by (induction al) auto

lemma iter_members_nums:
  assumes "distinct (map fst (members_by_num mv))"
    and "\<forall>(k, m) \<in> set (members_by_num mv). k = num m"
  shows "distinct (map num (iter_members mv))"
proof -
  let ?al = "sort_key fst (members_by_num mv)"
  have "\<forall>(k, m) \<in> set ?al. k = num m" using assms(2) by simp
  then have "map num (map snd ?al) = map fst ?al"
    by (rule map_num_snd)
  moreover have "distinct (map fst ?al)"
    using assms(1) by (metis distinct_map distinct_sort set_sort)
  ultimately show ?thesis unfolding iter_members_def by (simp only:)
qed

lemma MetaView_init_nums:
  "MetaView_init P fs root = Inr mv \<Longrightarrow> inj_on num (set (iter_members mv))"
  using MetaView_init_by_num iter_members_nums by (metis distinct_map)

lemma those_map_Some:
  "(\<And>x. x \<in> set xs \<Longrightarrow> \<exists>t. f x = Some t \<and> Q t) \<Longrightarrow>
     \<exists>ts. those (map f xs) = Some ts \<and> list_all Q ts"
proof (induction xs)
  case Nil
  then show ?case by simp
next
  case (Cons x xs)
  from Cons.prems obtain t where t: "f x = Some t" "Q t" by auto
  from Cons.IH Cons.prems obtain ts where ts: "those (map f xs) = Some ts" "list_all Q ts"
    by auto
  from t ts show ?case by simp
qed

lemma make_tree_chain:
  assumes inj: "inj_on num (set (iter_members mv))"
  shows "chain P mv (s # anc) \<Longrightarrow> length (iter_members mv) + 2 \<le> n + length (s # anc) \<Longrightarrow>
     \<exists>t. make_tree n P mv s = Some t
        \<and> no_repeat (map (map_option (Member_to_json_compact P)) anc) t"
proof (induction n arbitrary: s anc)
  case 0
  with chain_length[OF 0(1)] show ?case by simp
next
  case (Suc n)
  let ?lab = "map_option (Member_to_json_compact P)"
  have injlab: "inj_on ?lab (insert None (Some ` set (iter_members mv)))"
  proof (rule inj_onI)
    fix a b assume a: "a \<in> insert None (Some ` set (iter_members mv))"
      and b: "b \<in> insert None (Some ` set (iter_members mv))" and e: "?lab a = ?lab b"
    show "a = b"
    proof (cases a)
      case None with e show ?thesis by (cases b) auto
    next
      case (Some m)
      with e obtain m' where m': "b = Some m'" by (cases b) auto
      with Some e have "num m = num m'"
        by (simp add: Member_to_json_compact_def)
      with inj a b Some m' show ?thesis by (auto dest: inj_onD)
    qed
  qed
  have dl: "distinct (map ?lab (s # anc))"
    using chain_distinct[OF Suc.prems(1)] chain_members[OF Suc.prems(1)] injlab
    by (metis distinct_map inj_on_subset)
  have kids: "\<And>x. x \<in> set (children P mv s) \<Longrightarrow>
      \<exists>t. make_tree n P mv (Some x) = Some t \<and> no_repeat (map ?lab (s # anc)) t"
  proof -
    fix x assume "x \<in> set (children P mv s)"
    then have x: "x \<in> set (iter_members mv)" "sponsor P mv x = s"
      by (auto simp: children_filter)
    with Suc.prems(1) have c: "chain P mv (Some x # s # anc)" by simp
    from Suc.prems(2) have "length (iter_members mv) + 2 \<le> n + length (Some x # s # anc)" by simp
    from Suc.IH[OF c this] show "\<exists>t. make_tree n P mv (Some x) = Some t \<and> no_repeat (map ?lab (s # anc)) t" .
  qed
  from those_map_Some[of "children P mv s" "\<lambda>x. make_tree n P mv (Some x)"
      "no_repeat (map ?lab (s # anc))", OF kids]
  obtain ts where ts: "those (map (\<lambda>x. make_tree n P mv (Some x)) (children P mv s)) = Some ts"
    "list_all (no_repeat (map ?lab (s # anc))) ts" by blast
  from ts dl show ?case by simp
qed

lemma cycle_init: "MetaView_init ascii_runtime cycle_fs ''repo'' = Inr cycle_metaview"
  by (simp add: eval_defs cycle_fs_def cycle_file_def cycle_metaview_def cycle_member_def)

lemma cycle_members: "length (iter_members cycle_metaview) = 3"
  by (simp add: cycle_metaview_def eval_defs cycle_member_def)

lemma cycle_children: "children ascii_runtime cycle_metaview None = []"
  by (simp add: children_filter sponsor_def cycle_metaview_def cycle_member_def
      iter_members_def index_member_def empty_metaview_def github_def u_def ascii_lower_def
      ascii_runtime_def)

lemma cycle_tree: "make_tree 4 ascii_runtime cycle_metaview None = Some (Tree None [])"
proof -
  have "make_tree (Suc 3) ascii_runtime cycle_metaview None = Some (Tree None [])"
    by (simp only: make_tree.simps cycle_children) simp
  then show ?thesis by (simp add: numeral_nat)
qed

text \<open>
  C4. Sponsorship-tree construction returns on every registry, whatever the sponsor
  references: with a depth allowance above the number of members, \<open>_make_tree(None)\<close>
  gives a tree (a sponsor cycle is never entered, the walk starts at the root key and
  a member's sponsor is unique), and no label of that tree occurs twice on a path from
  the root.
\<close>

theorem make_tree_terminates:
  assumes "MetaView_init P fs root = Inr mv" and "length (iter_members mv) < n"
  shows "\<exists>t. make_tree n P mv None = Some t \<and> no_repeat [] t"
proof -
  have "chain P mv [None]" by simp
  moreover have "length (iter_members mv) + 2 \<le> n + length [None :: member option]"
    using assms(2) by simp
  ultimately show ?thesis
    using make_tree_chain[OF MetaView_init_nums[OF assms(1)], of P None "[]" n] by simp
qed

theorem make_tree_terminates_witness:
  "MetaView_init ascii_runtime cycle_fs ''repo'' = Inr cycle_metaview
   \<and> length (iter_members cycle_metaview) < 4
   \<and> make_tree 4 ascii_runtime cycle_metaview None = Some (Tree None [])
   \<and> no_repeat [] (Tree None [])"
  using make_tree_terminates[of ascii_runtime cycle_fs "''repo''" cycle_metaview 4]
  by (simp add: cycle_init cycle_members cycle_tree)

subsection \<open>Member file names\<close>

text \<open>
  C7 (fails on the code). \<open>read_members\<close> is claimed to admit a file name exactly when it
  has the shape four digits, underscore, id, literal dot, \<open>txt\<close>. The dot of \<open>_member_re\<close>
  is not escaped, so the name \<open>0001_fooXtxt\<close>, which has no dot at all, is admitted with
  number \<open>0001\<close> and id \<open>foo\<close>.
\<close>

theorem member_re_admits_name_without_dot:
  "member_re ''0001_fooXtxt'' = Some (''0001'', ''foo'')
   \<and> \<not> spec_member_pattern ''0001_fooXtxt''"
  by (simp add: member_re_def spec_member_pattern_def is_digit_def newline_def)

end
